theory Spec2Isabelle
  imports Complex_Main "HOL-Library.AList" "HOL-Library.Multiset" "HOL-Library.Log_Nat"
begin

section \<open>Data model (internal/models)\<close>

text \<open>
  Conventions of the embedding.
  \<^item> In the data model, the aggregation engine and the cache a Go \<^verbatim>\<open>float64\<close> is a
    \<^typ>\<open>real\<close>: rounding, infinities and NaN are not modelled there. The backoff delay
    of the fetcher is converted to an integer, so it is computed with the rounding of
    \<^verbatim>\<open>float64\<close>, in a model of its own.
  \<^item> A \<^verbatim>\<open>time.Time\<close> is the instant it denotes, an \<^typ>\<open>int\<close> counting nanoseconds from
    the zero value of \<^verbatim>\<open>time.Time\<close>; the zero value is \<open>0\<close>, instants before it are
    negative. \<^verbatim>\<open>t.After(u)\<close> is \<open>u < t\<close>, \<^verbatim>\<open>t.Before(u)\<close> is \<open>t < u\<close>. A
    \<^verbatim>\<open>time.Duration\<close> is an \<^typ>\<open>int\<close> of nanoseconds.
  \<^item> A Go map is an association list with distinct keys, \<^verbatim>\<open>len\<close> is \<^const>\<open>length\<close>,
    \<^verbatim>\<open>m[k] = v\<close> is \<^const>\<open>AList.update\<close>, \<^verbatim>\<open>delete(m, k)\<close> is \<^const>\<open>AList.delete\<close>
    and a lookup is \<^const>\<open>map_of\<close>. A \<^verbatim>\<open>range\<close> over a map visits the entries in an
    order Go leaves unspecified; the model visits them in list order, and the
    theorems below are stated for every list, hence for every order.
  \<^item> A nil pointer result is \<^const>\<open>None\<close>.
\<close>

type_synonym time = int
type_synonym duration = int
type_synonym ('k, 'v) gomap = "('k \<times> 'v) list"

record CurrentWeather =
  cw_City :: string
  cw_Temperature :: real
  cw_FeelsLike :: real
  cw_Humidity :: real
  cw_Pressure :: real
  cw_WindSpeed :: real
  cw_WindDegree :: real
  cw_Description :: string
  cw_Icon :: string
  cw_Timestamp :: time
  cw_Source :: string

record ForecastDay =
  fd_Date :: time
  fd_MaxTemp :: real
  fd_MinTemp :: real
  fd_AvgTemp :: real
  fd_Humidity :: real
  fd_Description :: string
  fd_Icon :: string
  fd_Precipitation :: real

record WeatherForecast =
  wf_City :: string
  wf_Forecast :: "ForecastDay list"
  wf_Source :: string

record AggregatedCurrentWeather =
  acw_City :: string
  acw_Temperature :: real
  acw_FeelsLike :: real
  acw_Humidity :: real
  acw_Pressure :: real
  acw_WindSpeed :: real
  acw_Description :: string
  acw_Icon :: string
  acw_LastUpdated :: time
  acw_Sources :: "string list"
  acw_Confidence :: real

record AggregatedForecast =
  af_City :: string
  af_Days :: "ForecastDay list"
  af_LastUpdated :: time
  af_Sources :: "string list"

record WeatherData =
  wd_City :: string
  wd_Current :: "(string, CurrentWeather) gomap"
  wd_Forecasts :: "(string, WeatherForecast) gomap"
  wd_Timestamp :: time

text \<open>
  Errors are values. The constructors follow the \<^verbatim>\<open>fmt.Errorf\<close> calls of the source;
  \<open>ClientError\<close> stands for whatever error a weather client returns.
\<close>

datatype error =
    ClientError string
  | AllAPICallsFailed string
  | SomeCitiesFailed
  | FailedToFetchWeather string error
  | FailedToFetchForecast string error
  | WeatherNotAvailable string
  | ForecastNotAvailable string
  | DaysOutOfRange
  | ContextCanceled
  | ContextDeadlineExceeded
  | CreatingRequestFailed error
  | TransportError string
  | BodyReadError string
  | HTTPStatusError int
  | MaxRetriesExceeded "error option"

record APIResponse =
  ar_Current :: "CurrentWeather option"
  ar_Forecast :: "WeatherForecast option"
  ar_Error :: "error option"
  ar_Source :: string

section \<open>Aggregation engine (internal/services/aggregator.go)\<close>

subsection \<open>calculateConfidence\<close>

definition calculateConfidence :: "(string, CurrentWeather) gomap \<Rightarrow> real" where
  "calculateConfidence currentWeather =
     (if length currentWeather \<le> 1 then 0.5
      else
        let temps = fold (\<lambda>(_, weather) ts. ts @ [cw_Temperature weather]) currentWeather [];
            mean = fold (\<lambda>temp m. m + temp) temps 0;
            mean = mean / real (length temps);
            variance = fold (\<lambda>temp v. v + (temp - mean) * (temp - mean)) temps 0;
            variance = variance / real (length temps);
            normalizedVariance = variance / 25.0;
            normalizedVariance = (if normalizedVariance > 1 then 1 else normalizedVariance);
            confidence = 1 - normalizedVariance;
            sourceBoost = real (length currentWeather - 1) * 0.1;
            confidence = confidence + sourceBoost;
            confidence = (if confidence > 1 then 1 else confidence);
            confidence = (if confidence < 0 then 0 else confidence)
        in confidence)"

text \<open>
  The specification's formula, written from its words: the population variance of the
  contributed temperatures, and the clamp to the unit interval.
\<close>

definition populationVariance :: "real list \<Rightarrow> real" where
  "populationVariance ts =
     (\<Sum>t\<leftarrow>ts. (t - sum_list ts / real (length ts))\<^sup>2) / real (length ts)"

definition clamp01 :: "real \<Rightarrow> real" where
  "clamp01 x = max 0 (min 1 x)"

definition spec_confidence :: "real list \<Rightarrow> real" where
  "spec_confidence ts =
     (if length ts = 1 then 0.5
      else clamp01 (1 - min (populationVariance ts / 25.0) 1 + 0.1 * (real (length ts) - 1)))"

subsection \<open>mostCommonString\<close>

text \<open>
  The first loop counts the strings in a map, the second keeps the first visited entry
  with the strictly greatest count. Among strings of equal count the order in which Go
  visits the map decides; the model visits the counts in the order of first
  occurrence. The icon of the merged record is likewise the one of the entry that a
  second \<^verbatim>\<open>range\<close> over the readings visits first, for which the model takes the head of
  the list. No claim below is about the description or the icon.
\<close>

definition countStrings :: "string list \<Rightarrow> (string, int) gomap" where
  "countStrings strs =
     fold (\<lambda>s counts.
             AList.update s ((case map_of counts s of None \<Rightarrow> 0 | Some n \<Rightarrow> n) + 1) counts)
       strs []"

definition mostCommonString :: "string list \<Rightarrow> string" where
  "mostCommonString strs =
     fst (fold (\<lambda>(s, count) (mostCommon, maxCount).
                  if count > maxCount then (s, count) else (mostCommon, maxCount))
            (countStrings strs) ([], 0))"

subsection \<open>aggregateCurrentWeather\<close>

text \<open>The variables of the summing loop of \<^verbatim>\<open>aggregateCurrentWeather\<close>.\<close>

record CurrentTotals =
  totalTemp :: real
  totalFeelsLike :: real
  totalHumidity :: real
  totalPressure :: real
  totalWindSpeed :: real
  descriptions :: "string list"
  sources :: "string list"
  latestTimestamp :: time

definition zeroCurrentTotals :: CurrentTotals where
  "zeroCurrentTotals =
     \<lparr>totalTemp = 0, totalFeelsLike = 0, totalHumidity = 0, totalPressure = 0,
      totalWindSpeed = 0, descriptions = [], sources = [], latestTimestamp = 0\<rparr>"

definition addCurrent :: "string \<times> CurrentWeather \<Rightarrow> CurrentTotals \<Rightarrow> CurrentTotals" where
  "addCurrent entry t =
     (case entry of (source, weather) \<Rightarrow>
       \<lparr>totalTemp = totalTemp t + cw_Temperature weather,
        totalFeelsLike = totalFeelsLike t + cw_FeelsLike weather,
        totalHumidity = totalHumidity t + cw_Humidity weather,
        totalPressure = totalPressure t + cw_Pressure weather,
        totalWindSpeed = totalWindSpeed t + cw_WindSpeed weather,
        descriptions = descriptions t @ [cw_Description weather],
        sources = sources t @ [source],
        latestTimestamp =
          (if cw_Timestamp weather > latestTimestamp t then cw_Timestamp weather
           else latestTimestamp t)\<rparr>)"

definition aggregateCurrentWeather :: "WeatherData \<Rightarrow> AggregatedCurrentWeather option" where
  "aggregateCurrentWeather data =
     (if length (wd_Current data) = 0 then None
      else
        let t = fold addCurrent (wd_Current data) zeroCurrentTotals;
            count = real (length (wd_Current data));
            confidence = calculateConfidence (wd_Current data);
            description = mostCommonString (descriptions t);
            icon = (case wd_Current data of [] \<Rightarrow> [] | (_, weather) # _ \<Rightarrow> cw_Icon weather)
        in Some
          \<lparr>acw_City = wd_City data,
           acw_Temperature = totalTemp t / count,
           acw_FeelsLike = totalFeelsLike t / count,
           acw_Humidity = totalHumidity t / count,
           acw_Pressure = totalPressure t / count,
           acw_WindSpeed = totalWindSpeed t / count,
           acw_Description = description,
           acw_Icon = icon,
           acw_LastUpdated = latestTimestamp t,
           acw_Sources = sources t,
           acw_Confidence = confidence\<rparr>)"

subsection \<open>aggregateForecast\<close>

text \<open>
  A run-time panic of the Go code is a value. \<^verbatim>\<open>aggregateForecast\<close> slices each
  contributing forecast with \<^verbatim>\<open>forecast.Forecast[:days]\<close>; for a negative \<^verbatim>\<open>days\<close>
  the test \<^verbatim>\<open>len(forecast.Forecast) >= days\<close> holds for the first provider visited and
  the slice expression panics. The only caller passes 1 to 7.
\<close>

datatype panic = SliceBoundsOutOfRange

text \<open>The variables of the inner loop over the providers, for one day.\<close>

record DayTotals =
  totalMaxTemp :: real
  totalMinTemp :: real
  totalAvgTemp :: real
  dayTotalHumidity :: real
  totalPrecipitation :: real
  dayDescriptions :: "string list"
  date :: time
  dayCount :: nat

definition zeroDayTotals :: DayTotals where
  "zeroDayTotals =
     \<lparr>totalMaxTemp = 0, totalMinTemp = 0, totalAvgTemp = 0, dayTotalHumidity = 0,
      totalPrecipitation = 0, dayDescriptions = [], date = 0, dayCount = 0\<rparr>"

definition addDay :: "nat \<Rightarrow> ForecastDay list \<Rightarrow> DayTotals \<Rightarrow> DayTotals" where
  "addDay day forecast t =
     (if day < length forecast then
        let dayForecast = forecast ! day in
        \<lparr>totalMaxTemp = totalMaxTemp t + fd_MaxTemp dayForecast,
         totalMinTemp = totalMinTemp t + fd_MinTemp dayForecast,
         totalAvgTemp = totalAvgTemp t + fd_AvgTemp dayForecast,
         dayTotalHumidity = dayTotalHumidity t + fd_Humidity dayForecast,
         totalPrecipitation = totalPrecipitation t + fd_Precipitation dayForecast,
         dayDescriptions = dayDescriptions t @ [fd_Description dayForecast],
         date = fd_Date dayForecast,
         dayCount = dayCount t + 1\<rparr>
      else t)"

text \<open>The zero value of \<^verbatim>\<open>models.ForecastDay\<close>, which \<^verbatim>\<open>make\<close> fills the slice with.\<close>

definition zeroForecastDay :: ForecastDay where
  "zeroForecastDay =
     \<lparr>fd_Date = 0, fd_MaxTemp = 0, fd_MinTemp = 0, fd_AvgTemp = 0, fd_Humidity = 0,
      fd_Description = [], fd_Icon = [], fd_Precipitation = 0\<rparr>"

text \<open>
  One iteration of the loop over the days. \<^verbatim>\<open>allForecasts[0][day]\<close> is in range where
  it is evaluated: \<open>allForecasts\<close> is not empty and each member has \<open>days\<close> entries.
\<close>

definition aggregateDay :: "ForecastDay list list \<Rightarrow> nat \<Rightarrow> ForecastDay" where
  "aggregateDay allForecasts day =
     (let t = fold (addDay day) allForecasts zeroDayTotals in
      if dayCount t = 0 then zeroForecastDay
      else
        let dayCountFloat = real (dayCount t) in
        \<lparr>fd_Date = date t,
         fd_MaxTemp = totalMaxTemp t / dayCountFloat,
         fd_MinTemp = totalMinTemp t / dayCountFloat,
         fd_AvgTemp = totalAvgTemp t / dayCountFloat,
         fd_Humidity = dayTotalHumidity t / dayCountFloat,
         fd_Description = mostCommonString (dayDescriptions t),
         fd_Icon = fd_Icon ((allForecasts ! 0) ! day),
         fd_Precipitation = totalPrecipitation t / dayCountFloat\<rparr>)"

definition collectForecasts ::
  "int \<Rightarrow> string \<times> WeatherForecast \<Rightarrow> ForecastDay list list \<times> string list \<Rightarrow>
   ForecastDay list list \<times> string list" where
  "collectForecasts days entry acc =
     (case entry of (source, forecast) \<Rightarrow>
       (case acc of (allForecasts, srcs) \<Rightarrow>
         if int (length (wf_Forecast forecast)) \<ge> days
         then (allForecasts @ [take (nat days) (wf_Forecast forecast)], srcs @ [source])
         else (allForecasts, srcs)))"

text \<open>\<open>now\<close> is the reading of \<^verbatim>\<open>time.Now()\<close>.\<close>

definition aggregateForecast ::
  "time \<Rightarrow> WeatherData \<Rightarrow> int \<Rightarrow> panic + AggregatedForecast option" where
  "aggregateForecast now data days =
     (if length (wd_Forecasts data) = 0 then Inr None
      else if days < 0 then Inl SliceBoundsOutOfRange
      else
        let (allForecasts, srcs) = fold (collectForecasts days) (wd_Forecasts data) ([], []) in
        if length allForecasts = 0 then Inr None
        else Inr (Some
          \<lparr>af_City = wd_City data,
           af_Days = map (aggregateDay allForecasts) [0..<nat days],
           af_LastUpdated = now,
           af_Sources = srcs\<rparr>))"

section \<open>Cache (internal/services, WeatherCache)\<close>

text \<open>
  \<^verbatim>\<open>CacheItem.Data\<close> is an \<^verbatim>\<open>interface{}\<close> that the two stores only ever fill with a
  \<^verbatim>\<open>*models.AggregatedCurrentWeather\<close> and a \<^verbatim>\<open>*models.AggregatedForecast\<close>; the pointer
  may be nil, so the payload is an option. The mutex, the logger and the clean-up
  goroutine are not modelled: every operation is one atomic step, and \<open>now\<close> is the
  reading of \<^verbatim>\<open>time.Now()\<close> in that step.
\<close>

record 'a CacheItem =
  Data :: "'a option"
  ExpiresAt :: time

type_synonym forecastStore = "(string, (int, AggregatedForecast CacheItem) gomap) gomap"

record WeatherCache =
  c_currentWeather :: "(string, AggregatedCurrentWeather CacheItem) gomap"
  c_forecast :: forecastStore
  c_defaultDuration :: duration
  c_maxSize :: int

definition NewWeatherCache :: "duration \<Rightarrow> int \<Rightarrow> WeatherCache" where
  "NewWeatherCache defaultDuration maxSize =
     \<lparr>c_currentWeather = [], c_forecast = [], c_defaultDuration = defaultDuration,
      c_maxSize = maxSize\<rparr>"

subsection \<open>evictOldestCurrent and SetCurrentWeather\<close>

text \<open>The loop of \<^verbatim>\<open>evictOldestCurrent\<close>, on the pair \<open>(oldestKey, oldestTime)\<close>.\<close>

definition oldestCurrent ::
  "(string, AggregatedCurrentWeather CacheItem) gomap \<Rightarrow> string \<times> time" where
  "oldestCurrent m =
     fold (\<lambda>(key, item) (oldestKey, oldestTime).
             if oldestKey = '''' \<or> ExpiresAt item < oldestTime then (key, ExpiresAt item)
             else (oldestKey, oldestTime))
       m ('''', 0)"

definition evictOldestCurrent :: "WeatherCache \<Rightarrow> WeatherCache" where
  "evictOldestCurrent c =
     (let (oldestKey, oldestTime) = oldestCurrent (c_currentWeather c) in
      if oldestKey \<noteq> '''' then c\<lparr>c_currentWeather := AList.delete oldestKey (c_currentWeather c)\<rparr>
      else c)"

definition SetCurrentWeather ::
  "time \<Rightarrow> WeatherCache \<Rightarrow> string \<Rightarrow> AggregatedCurrentWeather option \<Rightarrow> WeatherCache" where
  "SetCurrentWeather now c city weather =
     (let c = (if int (length (c_currentWeather c)) \<ge> c_maxSize c then evictOldestCurrent c else c)
      in c\<lparr>c_currentWeather :=
             AList.update city \<lparr>Data = weather, ExpiresAt = now + c_defaultDuration c\<rparr>
               (c_currentWeather c)\<rparr>)"

subsection \<open>GetCurrentWeather\<close>

text \<open>
  The result is the pair \<^verbatim>\<open>(weather, ok)\<close> and the cache after the call. The type
  assertion on \<^verbatim>\<open>item.Data\<close> succeeds for every item of this store.
\<close>

definition GetCurrentWeather ::
  "time \<Rightarrow> WeatherCache \<Rightarrow> string \<Rightarrow> (AggregatedCurrentWeather option \<times> bool) \<times> WeatherCache" where
  "GetCurrentWeather now c city =
     (case map_of (c_currentWeather c) city of
        None \<Rightarrow> ((None, False), c)
      | Some item \<Rightarrow>
          if now > ExpiresAt item
          then ((None, False), c\<lparr>c_currentWeather := AList.delete city (c_currentWeather c)\<rparr>)
          else ((Data item, True), c))"

subsection \<open>evictOldestForecast and SetForecast\<close>

text \<open>
  The inner maps of \<^verbatim>\<open>c.forecast\<close> are changed in place: \<open>mutateCity city f\<close> applies
  \<open>f\<close> to the inner map stored under \<open>city\<close>. \<^verbatim>\<open>delete(c.forecast[city], days)\<close> on a city
  that is not a key deletes from a nil map and does nothing. The assignment
  \<^verbatim>\<open>c.forecast[city][days] = item\<close> of \<^verbatim>\<open>SetForecast\<close> finds the key, which the start of
  that function creates (lemma \<open>SetForecast_city_present\<close> below).
\<close>

definition mutateCity ::
  "string \<Rightarrow> ((int, AggregatedForecast CacheItem) gomap \<Rightarrow> (int, AggregatedForecast CacheItem) gomap) \<Rightarrow>
   forecastStore \<Rightarrow> forecastStore" where
  "mutateCity city f fs =
     (case map_of fs city of
        None \<Rightarrow> fs
      | Some cityForecasts \<Rightarrow> AList.update city (f cityForecasts) fs)"

text \<open>The nested loops of \<^verbatim>\<open>evictOldestForecast\<close>, on \<open>(oldestCity, oldestDays, oldestTime)\<close>.\<close>

definition oldestForecastStep ::
  "string \<Rightarrow> int \<times> AggregatedForecast CacheItem \<Rightarrow> string \<times> int \<times> time \<Rightarrow> string \<times> int \<times> time" where
  "oldestForecastStep city entry acc =
     (case entry of (days, item) \<Rightarrow>
       (case acc of (oldestCity, oldestDays, oldestTime) \<Rightarrow>
         if oldestCity = '''' \<or> ExpiresAt item < oldestTime then (city, days, ExpiresAt item)
         else (oldestCity, oldestDays, oldestTime)))"

definition oldestForecast :: "forecastStore \<Rightarrow> string \<times> int \<times> time" where
  "oldestForecast fs =
     fold (\<lambda>(city, forecasts) acc. fold (oldestForecastStep city) forecasts acc) fs ('''', 0, 0)"

definition evictOldestForecast :: "WeatherCache \<Rightarrow> WeatherCache" where
  "evictOldestForecast c =
     (let (oldestCity, oldestDays, oldestTime) = oldestForecast (c_forecast c) in
      if oldestCity \<noteq> ''''
      then c\<lparr>c_forecast := mutateCity oldestCity (AList.delete oldestDays) (c_forecast c)\<rparr>
      else c)"

text \<open>The count \<^verbatim>\<open>totalItems\<close> of \<^verbatim>\<open>SetForecast\<close>: both stores together.\<close>

definition totalItems :: "WeatherCache \<Rightarrow> int" where
  "totalItems c =
     fold (\<lambda>(_, cityForecasts) total. total + int (length cityForecasts)) (c_forecast c)
       (int (length (c_currentWeather c)))"

definition SetForecast ::
  "time \<Rightarrow> WeatherCache \<Rightarrow> string \<Rightarrow> int \<Rightarrow> AggregatedForecast option \<Rightarrow> WeatherCache" where
  "SetForecast now c city days forecast =
     (let c = (if map_of (c_forecast c) city = None
               then c\<lparr>c_forecast := AList.update city [] (c_forecast c)\<rparr> else c);
          c = (if totalItems c \<ge> c_maxSize c then evictOldestForecast c else c)
      in c\<lparr>c_forecast :=
             mutateCity city
               (AList.update days \<lparr>Data = forecast, ExpiresAt = now + c_defaultDuration c\<rparr>)
               (c_forecast c)\<rparr>)"

subsection \<open>GetForecast\<close>

definition GetForecast ::
  "time \<Rightarrow> WeatherCache \<Rightarrow> string \<Rightarrow> int \<Rightarrow> (AggregatedForecast option \<times> bool) \<times> WeatherCache" where
  "GetForecast now c city days =
     (case map_of (c_forecast c) city of
        None \<Rightarrow> ((None, False), c)
      | Some cityForecasts \<Rightarrow>
          (case map_of cityForecasts days of
             None \<Rightarrow> ((None, False), c)
           | Some item \<Rightarrow>
               if now > ExpiresAt item
               then ((None, False), c\<lparr>c_forecast := mutateCity city (AList.delete days) (c_forecast c)\<rparr>)
               else ((Data item, True), c)))"

text \<open>
  The occupancy of the cache: the entries of the current-weather store and of the
  forecast store together.
\<close>

definition forecastEntries :: "forecastStore \<Rightarrow> (string \<times> int \<times> AggregatedForecast CacheItem) list" where
  "forecastEntries fs =
     concat (map (\<lambda>(city, forecasts). map (\<lambda>(days, item). (city, days, item)) forecasts) fs)"

definition occupancy :: "WeatherCache \<Rightarrow> nat" where
  "occupancy c = length (c_currentWeather c) + length (forecastEntries (c_forecast c))"

section \<open>Coordinator (internal/services, Aggregator)\<close>

text \<open>
  A weather client is what the coordinator sees of it in one fetch cycle: the name
  \<^verbatim>\<open>getSourceName\<close> gives it, and the results of its two methods, each a pair of a
  pointer and an error as in Go. Retries, the circuit breaker and the context deadline
  are inside these results. The goroutines of a cycle are joined before their results
  are used, so the cycle is modelled sequentially: the list of clients is in the order
  in which the responses arrive on the channel, and the list of cities is in the order
  in which the per-city goroutines take effect. The mutex and the logger are not
  modelled, and \<open>now\<close> is the reading of \<^verbatim>\<open>time.Now()\<close> during the call.
\<close>

record WeatherClient =
  client_source :: string
  client_GetCurrentWeather :: "string \<Rightarrow> CurrentWeather option \<times> error option"
  client_GetForecast :: "string \<Rightarrow> int \<Rightarrow> WeatherForecast option \<times> error option"

record Aggregator =
  a_cache :: WeatherCache
  a_lastFetchTime :: time
  a_successCount :: int
  a_failureCount :: int
  a_weatherData :: "(string, WeatherData) gomap"

subsection \<open>aggregateAndCache\<close>

text \<open>
  The loop over \<open>days = 1 .. 7\<close>. \<open>aggregateForecast\<close> does not panic for these values
  (lemma \<open>aggregateForecast_no_panic\<close> below), so the last case is only taken for a nil
  result.
\<close>

definition cacheForecast :: "time \<Rightarrow> WeatherData \<Rightarrow> string \<Rightarrow> int \<Rightarrow> WeatherCache \<Rightarrow> WeatherCache" where
  "cacheForecast now weatherData city days cache =
     (case aggregateForecast now weatherData days of
        Inr (Some aggregatedForecast) \<Rightarrow> SetForecast now cache city days (Some aggregatedForecast)
      | _ \<Rightarrow> cache)"

definition aggregateAndCache :: "time \<Rightarrow> Aggregator \<Rightarrow> string \<Rightarrow> Aggregator" where
  "aggregateAndCache now a city =
     (case map_of (a_weatherData a) city of
        None \<Rightarrow> a
      | Some weatherData \<Rightarrow>
          if length (wd_Current weatherData) = 0 then a
          else
            let aggregatedCurrent = aggregateCurrentWeather weatherData;
                cache = SetCurrentWeather now (a_cache a) city aggregatedCurrent;
                cache = fold (cacheForecast now weatherData city) [1, 2, 3, 4, 5, 6, 7] cache
            in a\<lparr>a_cache := cache\<rparr>)"

subsection \<open>fetchCityWeather\<close>

text \<open>The body of the goroutine started for one client.\<close>

definition clientResponse :: "WeatherClient \<Rightarrow> string \<Rightarrow> APIResponse" where
  "clientResponse c city =
     (let response = \<lparr>ar_Current = None, ar_Forecast = None, ar_Error = None,
                      ar_Source = client_source c\<rparr>;
          (current, err) = client_GetCurrentWeather c city;
          response = (if err \<noteq> None then response\<lparr>ar_Error := err\<rparr>
                      else response\<lparr>ar_Current := current\<rparr>);
          (forecast, err) = client_GetForecast c city 3;
          response = (if err \<noteq> None
                      then (if ar_Error response = None then response\<lparr>ar_Error := err\<rparr>
                            else response)
                      else response\<lparr>ar_Forecast := forecast\<rparr>)
      in response)"

text \<open>The body of the loop over the responses, on \<open>(weatherData, successCount)\<close>.\<close>

definition processResponse :: "APIResponse \<Rightarrow> WeatherData \<times> nat \<Rightarrow> WeatherData \<times> nat" where
  "processResponse response acc =
     (case acc of (weatherData, successCount) \<Rightarrow>
       let (weatherData, successCount) =
             (case ar_Current response of
                Some current \<Rightarrow>
                  (weatherData\<lparr>wd_Current :=
                       AList.update (ar_Source response) current (wd_Current weatherData)\<rparr>,
                   successCount + 1)
              | None \<Rightarrow> (weatherData, successCount));
           weatherData =
             (case ar_Forecast response of
                Some forecast \<Rightarrow>
                  weatherData\<lparr>wd_Forecasts :=
                      AList.update (ar_Source response) forecast (wd_Forecasts weatherData)\<rparr>
              | None \<Rightarrow> weatherData)
       in (weatherData, successCount))"

definition fetchCityWeather ::
  "time \<Rightarrow> WeatherClient list \<Rightarrow> Aggregator \<Rightarrow> string \<Rightarrow> error option \<times> Aggregator" where
  "fetchCityWeather now clients a city =
     (let responses = map (\<lambda>c. clientResponse c city) clients;
          weatherData = \<lparr>wd_City = city, wd_Current = [], wd_Forecasts = [], wd_Timestamp = now\<rparr>;
          (weatherData, successCount) = fold processResponse responses (weatherData, 0)
      in if successCount = 0 then (Some (AllAPICallsFailed city), a)
         else
           let a = a\<lparr>a_weatherData := AList.update city weatherData (a_weatherData a)\<rparr>;
               a = aggregateAndCache now a city
           in (None, a))"

subsection \<open>FetchWeatherData\<close>

text \<open>The goroutine started for one city, on the aggregator and the channel of errors.\<close>

definition fetchCity ::
  "time \<Rightarrow> WeatherClient list \<Rightarrow> string \<Rightarrow> Aggregator \<times> error list \<Rightarrow> Aggregator \<times> error list" where
  "fetchCity now clients city acc =
     (case acc of (a, errors) \<Rightarrow>
       (case fetchCityWeather now clients a city of
          (Some err, a) \<Rightarrow> (a\<lparr>a_failureCount := a_failureCount a + 1\<rparr>, errors @ [err])
        | (None, a) \<Rightarrow> (a\<lparr>a_successCount := a_successCount a + 1\<rparr>, errors)))"

definition FetchWeatherData ::
  "time \<Rightarrow> WeatherClient list \<Rightarrow> Aggregator \<Rightarrow> string list \<Rightarrow> error option \<times> Aggregator" where
  "FetchWeatherData now clients a cities =
     (let a = a\<lparr>a_lastFetchTime := now\<rparr>;
          (a, errors) = fold (fetchCity now clients) cities (a, []);
          hasErrors = (errors \<noteq> [])
      in if hasErrors then (Some SomeCitiesFailed, a) else (None, a))"

subsection \<open>GetAggregatedCurrentWeather and GetAggregatedForecast\<close>

text \<open>The result is the pair of the pointer and the error, and the aggregator after the call.\<close>

definition GetAggregatedCurrentWeather ::
  "time \<Rightarrow> WeatherClient list \<Rightarrow> Aggregator \<Rightarrow> string \<Rightarrow>
   (AggregatedCurrentWeather option \<times> error option) \<times> Aggregator" where
  "GetAggregatedCurrentWeather now clients a city =
     (case GetCurrentWeather now (a_cache a) city of
        ((cached, True), cache) \<Rightarrow> ((cached, None), a\<lparr>a_cache := cache\<rparr>)
      | ((_, False), cache) \<Rightarrow>
          (case FetchWeatherData now clients (a\<lparr>a_cache := cache\<rparr>) [city] of
             (Some err, a) \<Rightarrow> ((None, Some (FailedToFetchWeather city err)), a)
           | (None, a) \<Rightarrow>
               (case GetCurrentWeather now (a_cache a) city of
                  ((cached, True), cache) \<Rightarrow> ((cached, None), a\<lparr>a_cache := cache\<rparr>)
                | ((_, False), cache) \<Rightarrow>
                    ((None, Some (WeatherNotAvailable city)), a\<lparr>a_cache := cache\<rparr>))))"

definition GetAggregatedForecast ::
  "time \<Rightarrow> WeatherClient list \<Rightarrow> Aggregator \<Rightarrow> string \<Rightarrow> int \<Rightarrow>
   (AggregatedForecast option \<times> error option) \<times> Aggregator" where
  "GetAggregatedForecast now clients a city days =
     (if days < 1 \<or> days > 7 then ((None, Some DaysOutOfRange), a)
      else
        (case GetForecast now (a_cache a) city days of
           ((cached, True), cache) \<Rightarrow> ((cached, None), a\<lparr>a_cache := cache\<rparr>)
         | ((_, False), cache) \<Rightarrow>
             (case FetchWeatherData now clients (a\<lparr>a_cache := cache\<rparr>) [city] of
                (Some err, a) \<Rightarrow> ((None, Some (FailedToFetchForecast city err)), a)
              | (None, a) \<Rightarrow>
                  (case GetForecast now (a_cache a) city days of
                     ((cached, True), cache) \<Rightarrow> ((cached, None), a\<lparr>a_cache := cache\<rparr>)
                   | ((_, False), cache) \<Rightarrow>
                       ((None, Some (ForecastNotAvailable city)), a\<lparr>a_cache := cache\<rparr>)))))"

text \<open>
  The sources that returned a current-weather reading for a city, as the specification
  speaks of them: the call gave no error and a reading.
\<close>

definition returnedReading :: "string \<Rightarrow> WeatherClient \<Rightarrow> bool" where
  "returnedReading city c \<longleftrightarrow>
     snd (client_GetCurrentWeather c city) = None \<and> fst (client_GetCurrentWeather c city) \<noteq> None"

section \<open>Resilient fetcher (pkg/client/base_client.go)\<close>

subsection \<open>The float64 arithmetic of the backoff delay\<close>

text \<open>
  The backoff delay is computed in \<^verbatim>\<open>float64\<close> and converted to a \<^verbatim>\<open>time.Duration\<close>, an
  \<^verbatim>\<open>int64\<close> of nanoseconds, so here rounding matters. A \<^verbatim>\<open>float64\<close> is a finite value,
  an infinity or not a number; the two zeros are not told apart, since no operation
  below depends on the sign of a zero. \<open>round64\<close> is the rounding of IEEE 754 binary64
  to the nearest value, ties to even: 53 bits of mantissa, exponents down to the
  subnormal step \<open>2 powi (- 1074)\<close>, and an infinity from \<open>2 ^ 1024\<close> on.
\<close>

datatype float64 = Finite real | PlusInf | MinusInf | NaN

text \<open>The exponent \<open>e\<close> with \<open>2 powi e \<le> \<bar>x\<bar> < 2 powi (e + 1)\<close>, for \<open>x\<close> other than \<open>0\<close>.\<close>

definition exponent :: "real \<Rightarrow> int" where
  "exponent x = (if 1 \<le> \<bar>x\<bar> then bitlen \<lfloor>\<bar>x\<bar>\<rfloor> - 1 else - bitlen (\<lceil>1 / \<bar>x\<bar>\<rceil> - 1))"

definition roundEven :: "real \<Rightarrow> int" where
  "roundEven x =
     (let f = \<lfloor>x\<rfloor>; r = x - of_int f
      in if r < 1 / 2 then f else if 1 / 2 < r then f + 1 else if even f then f else f + 1)"

definition round64 :: "real \<Rightarrow> float64" where
  "round64 x =
     (if x = 0 then Finite 0
      else let q = max (exponent x - 52) (- 1074);
               y = of_int (roundEven (x / 2 powi q)) * 2 powi q
           in if 2 ^ 1024 \<le> \<bar>y\<bar> then (if 0 < x then PlusInf else MinusInf) else Finite y)"

text \<open>The conversion \<^verbatim>\<open>float64(i)\<close> of an integer and the product \<^verbatim>\<open>x * y\<close>.\<close>

definition fromInt64 :: "int \<Rightarrow> float64" where
  "fromInt64 i = round64 (of_int i)"

fun negative :: "float64 \<Rightarrow> bool" where
  "negative (Finite x) = (x < 0)"
| "negative MinusInf = True"
| "negative PlusInf = False"
| "negative NaN = False"

definition mul64 :: "float64 \<Rightarrow> float64 \<Rightarrow> float64" where
  "mul64 x y =
     (case (x, y) of
        (Finite a, Finite b) \<Rightarrow> round64 (a * b)
      | _ \<Rightarrow> if x = NaN \<or> y = NaN \<or> x = Finite 0 \<or> y = Finite 0 then NaN
             else if negative x = negative y then PlusInf else MinusInf)"

definition towardZero :: "real \<Rightarrow> int" where
  "towardZero x = (if 0 \<le> x then \<lfloor>x\<rfloor> else \<lceil>x\<rceil>)"

subsection \<open>doGetWithRetry\<close>

text \<open>
  \<^verbatim>\<open>doGetWithRetry\<close> talks to the context, the clock and the HTTP client, and it calls
  the standard library. The model takes their answers as an environment and returns
  with the result the list of the effects it had, in order.
  \<^item> \<open>ctxDone env k\<close> is \<open>Some err\<close> when the \<^verbatim>\<open>select\<close> of attempt \<open>k\<close> takes the branch
    \<^verbatim>\<open><-ctx.Done()\<close>, \<open>err\<close> being \<^verbatim>\<open>ctx.Err()\<close>, and \<open>None\<close> when the timer fires.
  \<^item> \<open>newRequest env\<close> is the error of \<^verbatim>\<open>http.NewRequestWithContext\<close> for the URL, if any.
  \<^item> \<open>clientDo env k\<close> is the outcome of \<^verbatim>\<open>c.client.Do\<close> in attempt \<open>k\<close>: an error, or a
    response with its status code and the result of \<^verbatim>\<open>io.ReadAll\<close> on its body.
  \<^item> \<open>mathPow env\<close> is \<^verbatim>\<open>math.Pow\<close>, a function of the standard library whose results
    are not correctly rounded in general.
  \<^item> \<open>int64OutOfRange env x\<close> is the result of converting to \<^verbatim>\<open>int64\<close> a \<^verbatim>\<open>float64\<close> that
    \<^verbatim>\<open>int64\<close> cannot hold, which the language leaves to the implementation.
  The conversion \<^verbatim>\<open>time.Duration(x)\<close> of a \<^verbatim>\<open>float64\<close> in the range of \<^verbatim>\<open>int64\<close> discards
  the fraction. A wait that is not positive is over at once. The circuit breaker
  around the retry sequence is the library \<^verbatim>\<open>gobreaker\<close> and is not part of the model.
\<close>

record BaseClient =
  maxRetries :: int
  retryDelay :: duration
  multiplier :: float64

datatype httpResult = DoError error | Response int "error + string"

record Env =
  ctxDone :: "int \<Rightarrow> error option"
  newRequest :: "error option"
  clientDo :: "int \<Rightarrow> httpResult"
  mathPow :: "float64 \<Rightarrow> float64 \<Rightarrow> float64"
  int64OutOfRange :: "float64 \<Rightarrow> int"

datatype event = Backoff int duration | Request int

definition toDuration :: "Env \<Rightarrow> float64 \<Rightarrow> duration" where
  "toDuration env x =
     (case x of
        Finite a \<Rightarrow>
          if - (2 ^ 63) \<le> towardZero a \<and> towardZero a < 2 ^ 63 then towardZero a
          else int64OutOfRange env x
      | _ \<Rightarrow> int64OutOfRange env x)"

text \<open>
  \<^verbatim>\<open>time.Duration(float64(c.retryDelay) * math.Pow(c.multiplier, float64(attempt-1)))\<close>
\<close>

definition backoffDelay :: "BaseClient \<Rightarrow> Env \<Rightarrow> int \<Rightarrow> duration" where
  "backoffDelay c env attempt =
     toDuration env
       (mul64 (fromInt64 (retryDelay c)) (mathPow env (multiplier c) (fromInt64 (attempt - 1))))"

definition emit :: "event list \<Rightarrow> 'a \<times> event list \<Rightarrow> 'a \<times> event list" where
  "emit es r = (fst r, es @ snd r)"

text \<open>
  The loop \<^verbatim>\<open>for attempt := 0; attempt <= c.maxRetries; attempt++\<close>, from a given
  attempt number and value of \<^verbatim>\<open>lastErr\<close>. \<^verbatim>\<open>continue\<close> is the recursive call, \<^verbatim>\<open>break\<close>
  and the end of the loop give the final \<^verbatim>\<open>return\<close>.
\<close>

function retryLoop ::
  "BaseClient \<Rightarrow> Env \<Rightarrow> int \<Rightarrow> error option \<Rightarrow> (error + string) \<times> event list" where
  "retryLoop c env attempt lastErr =
     (if attempt \<le> maxRetries c then
        (case (if attempt > 0 then ctxDone env attempt else None) of
           Some err \<Rightarrow> (Inl err, [Backoff attempt (backoffDelay c env attempt)])
         | None \<Rightarrow>
             emit (if attempt > 0 then [Backoff attempt (backoffDelay c env attempt)] else [])
               (case newRequest env of
                  Some err \<Rightarrow> (Inl (CreatingRequestFailed err), [])
                | None \<Rightarrow>
                    emit [Request attempt]
                      (case clientDo env attempt of
                         DoError err \<Rightarrow> retryLoop c env (attempt + 1) (Some err)
                       | Response status body \<Rightarrow>
                           if status \<ge> 200 \<and> status < 300 then
                             (case body of
                                Inl err \<Rightarrow> retryLoop c env (attempt + 1) (Some err)
                              | Inr bytes \<Rightarrow> (Inr bytes, []))
                           else if status \<ge> 400 \<and> status < 500 \<and> status \<noteq> 429
                           then (Inl (MaxRetriesExceeded (Some (HTTPStatusError status))), [])
                           else retryLoop c env (attempt + 1) (Some (HTTPStatusError status)))))
      else (Inl (MaxRetriesExceeded lastErr), []))"
  by pat_completeness auto
termination
  by (relation "measure (\<lambda>(c, env, attempt, lastErr). nat (maxRetries c + 1 - attempt))") auto

declare retryLoop.simps [simp del]

definition doGetWithRetry :: "BaseClient \<Rightarrow> Env \<Rightarrow> (error + string) \<times> event list" where
  "doGetWithRetry c env = retryLoop c env 0 None"

text \<open>
  The notions the specification uses for the outcomes of an attempt: the outcomes it
  calls retryable (a transport error, which includes a body that cannot be read, a
  429 and a 5xx), the failure an outcome leaves in \<^verbatim>\<open>lastErr\<close>, and the effects of the
  attempts \<open>0\<close> to \<open>n\<close> when each is made: the backoff wait of every attempt after the
  first, then the request.
\<close>

fun retryable :: "httpResult \<Rightarrow> bool" where
  "retryable (DoError err) = True"
| "retryable (Response status body) =
     (status = 429 \<or> (500 \<le> status \<and> status < 600)
      \<or> (200 \<le> status \<and> status < 300 \<and> isl body))"

fun failureOf :: "httpResult \<Rightarrow> error" where
  "failureOf (DoError err) = err"
| "failureOf (Response status body) =
     (if 200 \<le> status \<and> status < 300 then projl body else HTTPStatusError status)"

definition attemptEvents :: "BaseClient \<Rightarrow> Env \<Rightarrow> int \<Rightarrow> event list" where
  "attemptEvents c env k = (if k > 0 then [Backoff k (backoffDelay c env k)] else []) @ [Request k]"

definition eventsThrough :: "BaseClient \<Rightarrow> Env \<Rightarrow> nat \<Rightarrow> event list" where
  "eventsThrough c env n = concat (map (\<lambda>i. attemptEvents c env (int i)) [0..<Suc n])"


section \<open>Specification-side notions and sample inputs\<close>

text \<open>The arithmetic mean, as the specification uses the word.\<close>

definition mean :: "real list \<Rightarrow> real" where
  "mean xs = sum_list xs / real (length xs)"

text \<open>Sample values at which the theorems are instantiated.\<close>

definition reading :: "real \<Rightarrow> time \<Rightarrow> CurrentWeather" where
  "reading temp ts =
     \<lparr>cw_City = ''Prague'', cw_Temperature = temp, cw_FeelsLike = temp, cw_Humidity = 60,
      cw_Pressure = 1013, cw_WindSpeed = 3, cw_WindDegree = 90, cw_Description = ''Clear sky'',
      cw_Icon = ''01d'', cw_Timestamp = ts, cw_Source = ''open-meteo''\<rparr>"

definition snapshot :: "(string, CurrentWeather) gomap \<Rightarrow> WeatherData" where
  "snapshot cur = \<lparr>wd_City = ''Prague'', wd_Current = cur, wd_Forecasts = [], wd_Timestamp = 100\<rparr>"

text \<open>
  The providers that supplied at least \<open>days\<close> forecast entries, as the specification
  names the contributors of a forecast merge.
\<close>

definition enoughDays :: "int \<Rightarrow> string \<times> WeatherForecast \<Rightarrow> bool" where
  "enoughDays days entry = (days \<le> int (length (wf_Forecast (snd entry))))"

definition contributors :: "WeatherData \<Rightarrow> int \<Rightarrow> (string, WeatherForecast) gomap" where
  "contributors data days = filter (enoughDays days) (wd_Forecasts data)"

definition forecastDay :: "time \<Rightarrow> real \<Rightarrow> ForecastDay" where
  "forecastDay d temp =
     \<lparr>fd_Date = d, fd_MaxTemp = temp + 4, fd_MinTemp = temp - 4, fd_AvgTemp = temp,
      fd_Humidity = 50, fd_Description = ''Overcast'', fd_Icon = ''02d'', fd_Precipitation = 0\<rparr>"

definition forecastOf :: "string \<Rightarrow> ForecastDay list \<Rightarrow> WeatherForecast" where
  "forecastOf src ds = \<lparr>wf_City = ''Prague'', wf_Forecast = ds, wf_Source = src\<rparr>"

definition forecastSnapshot :: WeatherData where
  "forecastSnapshot =
     \<lparr>wd_City = ''Prague'',
      wd_Current = [(''open-meteo'', reading 10 5)],
      wd_Forecasts =
        [(''open-meteo'', forecastOf ''open-meteo'' [forecastDay 1 10, forecastDay 2 12, forecastDay 3 14]),
         (''openweathermap'', forecastOf ''openweathermap'' [forecastDay 1 20])],
      wd_Timestamp = 100\<rparr>"

definition sampleCurrent :: AggregatedCurrentWeather where
  "sampleCurrent =
     \<lparr>acw_City = ''Prague'', acw_Temperature = 15, acw_FeelsLike = 15, acw_Humidity = 60,
      acw_Pressure = 1013, acw_WindSpeed = 3, acw_Description = ''Clear sky'', acw_Icon = ''01d'',
      acw_LastUpdated = 7, acw_Sources = [''openweathermap'', ''open-meteo''], acw_Confidence = 0.1\<rparr>"

definition sampleForecast :: AggregatedForecast where
  "sampleForecast =
     \<lparr>af_City = ''Prague'', af_Days = [forecastDay 1 10, forecastDay 2 12, forecastDay 3 14],
      af_LastUpdated = 0, af_Sources = [''open-meteo'']\<rparr>"

definition sampleCache :: WeatherCache where
  "sampleCache =
     \<lparr>c_currentWeather = [(''Prague'', \<lparr>Data = Some sampleCurrent, ExpiresAt = 600\<rparr>)],
      c_forecast = [(''Prague'', [(3, \<lparr>Data = Some sampleForecast, ExpiresAt = 600\<rparr>)])],
      c_defaultDuration = 600, c_maxSize = 1000\<rparr>"

definition failingClient :: "string \<Rightarrow> WeatherClient" where
  "failingClient name =
     \<lparr>client_source = name,
      client_GetCurrentWeather = (\<lambda>city. (None, Some (ClientError ''timeout''))),
      client_GetForecast = (\<lambda>city days. (None, Some (ClientError ''timeout'')))\<rparr>"

definition workingClient :: WeatherClient where
  "workingClient =
     \<lparr>client_source = ''open-meteo'',
      client_GetCurrentWeather = (\<lambda>city. (Some (reading 10 5), None)),
      client_GetForecast = (\<lambda>city days. (None, Some (ClientError ''timeout'')))\<rparr>"

definition emptyAggregator :: Aggregator where
  "emptyAggregator =
     \<lparr>a_cache = NewWeatherCache 600 1000, a_lastFetchTime = 0, a_successCount = 0,
      a_failureCount = 0, a_weatherData = []\<rparr>"

text \<open>
  A power function for the environments of the examples. It is \<^verbatim>\<open>math.Pow\<close> at the
  arguments the examples reach: \<^verbatim>\<open>Pow(x, 0) = 1\<close> and \<^verbatim>\<open>Pow(x, 1) = x\<close> for every \<open>x\<close>, and
  \<^verbatim>\<open>Pow(2, 2) = 4\<close>. Elsewhere it is only a stand-in, the correctly rounded power for a
  whole exponent that is not negative, which \<^verbatim>\<open>math.Pow\<close> need not return. The examples
  convert no value out of the range of \<^verbatim>\<open>int64\<close>; their environments give the least
  \<^verbatim>\<open>int64\<close> there.
\<close>

definition roundedPow :: "float64 \<Rightarrow> float64 \<Rightarrow> float64" where
  "roundedPow x y =
     (if y = Finite 0 then Finite 1
      else if y = Finite 1 then x
      else case (x, y) of
             (Finite a, Finite b) \<Rightarrow> round64 (a ^ nat \<lfloor>b\<rfloor>)
           | _ \<Rightarrow> NaN)"

definition defaultClient :: BaseClient where
  "defaultClient = \<lparr>maxRetries = 3, retryDelay = 1000000000, multiplier = Finite 2\<rparr>"


definition unavailableEnv :: Env where
  "unavailableEnv =
     \<lparr>ctxDone = (\<lambda>k. None), newRequest = None, clientDo = (\<lambda>k. Response 503 (Inr ''busy'')),
      mathPow = roundedPow, int64OutOfRange = (\<lambda>x. - (2 ^ 63))\<rparr>"


definition recoveringEnv :: Env where
  "recoveringEnv =
     \<lparr>ctxDone = (\<lambda>k. None), newRequest = None,
      clientDo = (\<lambda>k. if k = 0 then Response 429 (Inr ''slow down'')
                      else if k = 1 then DoError (TransportError ''connection reset'')
                      else Response 200 (Inr ''{}'')),
      mathPow = roundedPow, int64OutOfRange = (\<lambda>x. - (2 ^ 63))\<rparr>"

definition notFoundEnv :: Env where
  "notFoundEnv =
     \<lparr>ctxDone = (\<lambda>k. None), newRequest = None, clientDo = (\<lambda>k. Response 404 (Inr ''not found'')),
      mathPow = roundedPow, int64OutOfRange = (\<lambda>x. - (2 ^ 63))\<rparr>"

section \<open>Theorems\<close>

lemma fold_snoc_map: "fold (\<lambda>(k, w) ts. ts @ [f w]) m acc = acc @ map (f \<circ> snd) m"
  by (induction m arbitrary: acc) (auto simp: case_prod_beta)

lemma fold_plus_sum_list: "fold (\<lambda>x (a::real). a + g x) xs acc = acc + sum_list (map g xs)"
  by (induction xs arbitrary: acc) auto

lemma clamp_seq:
  "(let c = 1 - (if x > 1 then 1 else x) + b;
        c = (if c > 1 then 1 else c);
        c = (if c < 0 then 0 else c) in c) = clamp01 (1 - min x 1 + (b::real))"
  by (simp add: clamp01_def Let_def min_def max_def)

lemma calculateConfidence_unfold:
  assumes "2 \<le> length m"
  shows "calculateConfidence m =
    clamp01 (1 - min (populationVariance (map (cw_Temperature \<circ> snd) m) / 25.0) 1
             + 0.1 * (real (length m) - 1))"
proof -
  let ?ts = "map (cw_Temperature \<circ> snd) m"
  have t: "fold (\<lambda>(_, weather) ts. ts @ [cw_Temperature weather]) m [] = ?ts"
    using fold_snoc_map [of cw_Temperature m "[]"] by simp
  have s: "fold (\<lambda>temp m. m + temp) ?ts 0 = sum_list ?ts"
    using fold_plus_sum_list [of "\<lambda>x. x" ?ts 0] by simp
  have v: "fold (\<lambda>temp v. v + (temp - \<mu>) * (temp - \<mu>)) ?ts 0 = (\<Sum>t\<leftarrow>?ts. (t - \<mu>)\<^sup>2)" for \<mu>
    using fold_plus_sum_list [of "\<lambda>t. (t - \<mu>) * (t - \<mu>)" ?ts 0]
    by (simp add: power2_eq_square)
  have n: "real (length m - 1) * 0.1 = 0.1 * (real (length m) - 1)"
    using assms by (simp add: of_nat_diff)
  have l: "\<not> length m \<le> 1" using assms by simp
  have "calculateConfidence m =
     (let c = 1 - (if populationVariance ?ts / 25.0 > 1 then 1 else populationVariance ?ts / 25.0)
               + 0.1 * (real (length m) - 1);
        c = (if c > 1 then 1 else c);
        c = (if c < 0 then 0 else c) in c)"
    unfolding calculateConfidence_def Let_def t s v n populationVariance_def if_not_P [OF l]
    by (simp only: length_map)
  then show ?thesis
    by (simp only: clamp_seq)
qed

lemma calculateConfidence_spec:
  assumes "m \<noteq> []"
  shows "calculateConfidence m = spec_confidence (map (cw_Temperature \<circ> snd) m)"
proof (cases "length m = 1")
  case True
  then show ?thesis by (simp add: calculateConfidence_def spec_confidence_def)
next
  case False
  moreover have "length m \<noteq> 0" using assms by simp
  ultimately have "2 \<le> length m" by linarith
  then show ?thesis
    using False by (simp add: calculateConfidence_unfold spec_confidence_def)
qed

lemma clamp01_range: "0 \<le> clamp01 x \<and> clamp01 x \<le> 1"
  by (simp add: clamp01_def)

lemma spec_confidence_range: "0 \<le> spec_confidence ts \<and> spec_confidence ts \<le> 1"
  using clamp01_range by (simp add: spec_confidence_def)

text \<open>
  The order in which the map is visited does not matter: two enumerations of the same
  entries give the same confidence.
\<close>

lemma populationVariance_mset:
  assumes "mset xs = mset ys"
  shows "populationVariance xs = populationVariance ys"
proof -
  have len: "length xs = length ys"
    using assms by (rule mset_eq_length)
  have sm: "sum_list (map f xs) = sum_list (map f ys)" for f :: "real \<Rightarrow> real"
  proof -
    have "sum_mset (image_mset f (mset xs)) = sum_mset (image_mset f (mset ys))"
      using assms by simp
    then show ?thesis by (simp only: sum_mset_sum_list flip: mset_map)
  qed
  have s: "sum_list xs = sum_list ys"
    using sm [of "\<lambda>x. x"] by simp
  show ?thesis
    unfolding populationVariance_def len s by (simp only: sm)
qed

lemma calculateConfidence_order_irrelevant:
  assumes "mset m = mset m'"
  shows "calculateConfidence m = calculateConfidence m'"
proof (cases "m = []")
  case True
  with assms show ?thesis by simp
next
  case False
  with assms have ne: "m' \<noteq> []" by auto
  have ts: "mset (map (cw_Temperature \<circ> snd) m) = mset (map (cw_Temperature \<circ> snd) m')"
    using assms by (metis mset_map)
  have "length (map (cw_Temperature \<circ> snd) m) = length (map (cw_Temperature \<circ> snd) m')"
    using ts by (rule mset_eq_length)
  then show ?thesis
    using populationVariance_mset [OF ts] False ne
    by (simp add: calculateConfidence_spec spec_confidence_def)
qed

text \<open>
  C1. For every non-empty map of readings the confidence computed by
  \<open>calculateConfidence\<close> is the specification's: 0.5 when exactly one reading
  contributes, and with two or more readings the clamp to [0,1] of
  1 - min(populationVariance(temperatures)/25, 1) + 0.1 * (count - 1). The result
  always lies in [0,1], and two readings with temperatures 10 and 20 give 0.1.
\<close>

theorem C1_confidence:
  assumes "currentWeather \<noteq> []"
  shows "(length currentWeather = 1 \<longrightarrow> calculateConfidence currentWeather = 0.5)
       \<and> (2 \<le> length currentWeather \<longrightarrow>
            calculateConfidence currentWeather =
              clamp01 (1 - min (populationVariance (map (cw_Temperature \<circ> snd) currentWeather) / 25.0) 1
                       + 0.1 * (real (length currentWeather) - 1)))
       \<and> 0 \<le> calculateConfidence currentWeather
       \<and> calculateConfidence currentWeather \<le> 1
       \<and> (cw_Temperature r1 = 10 \<and> cw_Temperature r2 = 20 \<longrightarrow>
            calculateConfidence [(s1, r1), (s2, r2)] = 0.1)"
proof -
  have one: "length currentWeather = 1 \<longrightarrow> calculateConfidence currentWeather = 0.5"
    by (simp add: calculateConfidence_def)
  have range: "0 \<le> calculateConfidence currentWeather \<and> calculateConfidence currentWeather \<le> 1"
    using assms spec_confidence_range by (simp add: calculateConfidence_spec)
  have ex: "calculateConfidence [(s1, r1), (s2, r2)] = 0.1"
    if "cw_Temperature r1 = 10" "cw_Temperature r2 = 20"
    using that by (simp add: calculateConfidence_def)
  show ?thesis
    using one range ex calculateConfidence_unfold [of currentWeather] by blast
qed

theorem C1_confidence_witness:
  "[(''openweathermap'', reading 10 5), (''open-meteo'', reading 20 7)] \<noteq> []
   \<and> calculateConfidence [(''openweathermap'', reading 10 5), (''open-meteo'', reading 20 7)] = 0.1
   \<and> 0 \<le> calculateConfidence [(''openweathermap'', reading 10 5), (''open-meteo'', reading 20 7)]"
  using C1_confidence [of "[(''openweathermap'', reading 10 5), (''open-meteo'', reading 20 7)]"
      "reading 10 5" "reading 20 7" "''openweathermap''" "''open-meteo''"]
  by (simp add: reading_def)

subsection \<open>The summing loop of aggregateCurrentWeather\<close>

lemma fold_addCurrent_totalTemp:
  "totalTemp (fold addCurrent m t) = totalTemp t + sum_list (map (cw_Temperature \<circ> snd) m)"
  by (induction m arbitrary: t) (auto simp: addCurrent_def)

lemma fold_addCurrent_totalFeelsLike:
  "totalFeelsLike (fold addCurrent m t) = totalFeelsLike t + sum_list (map (cw_FeelsLike \<circ> snd) m)"
  by (induction m arbitrary: t) (auto simp: addCurrent_def)

lemma fold_addCurrent_totalHumidity:
  "totalHumidity (fold addCurrent m t) = totalHumidity t + sum_list (map (cw_Humidity \<circ> snd) m)"
  by (induction m arbitrary: t) (auto simp: addCurrent_def)

lemma fold_addCurrent_totalPressure:
  "totalPressure (fold addCurrent m t) = totalPressure t + sum_list (map (cw_Pressure \<circ> snd) m)"
  by (induction m arbitrary: t) (auto simp: addCurrent_def)

lemma fold_addCurrent_totalWindSpeed:
  "totalWindSpeed (fold addCurrent m t) = totalWindSpeed t + sum_list (map (cw_WindSpeed \<circ> snd) m)"
  by (induction m arbitrary: t) (auto simp: addCurrent_def)

lemma fold_addCurrent_sources:
  "sources (fold addCurrent m t) = sources t @ map fst m"
  by (induction m arbitrary: t) (auto simp: addCurrent_def)

lemma fold_addCurrent_descriptions:
  "descriptions (fold addCurrent m t) = descriptions t @ map (cw_Description \<circ> snd) m"
  by (induction m arbitrary: t) (auto simp: addCurrent_def)

lemma fold_addCurrent_latestTimestamp:
  "m \<noteq> [] \<Longrightarrow>
   latestTimestamp (fold addCurrent m t) =
     max (latestTimestamp t) (Max (set (map (cw_Timestamp \<circ> snd) m)))"
proof (induction m arbitrary: t)
  case Nil
  then show ?case by simp
next
  case (Cons x xs)
  show ?case
  proof (cases "xs = []")
    case True
    then show ?thesis by (auto simp: addCurrent_def split: prod.splits)
  next
    case False
    have "latestTimestamp (addCurrent x t) = max (latestTimestamp t) (cw_Timestamp (snd x))"
      by (auto simp: addCurrent_def split: prod.splits)
    then show ?thesis
      using Cons.IH [OF False, of "addCurrent x t"] False by (simp add: max.assoc)
  qed
qed

text \<open>
  What the merge computes, for every non-empty map of readings: the merged record
  exists, its temperature, feels-like, humidity, pressure and wind speed are the
  arithmetic means of the corresponding fields over all readings, and its list of
  contributing providers is the list of the map's keys and is not empty. The
  timestamp is the one the loop ends with, which starts from the zero value of
  \<^verbatim>\<open>time.Time\<close> and moves to every later timestamp it meets.
\<close>

lemma aggregateCurrentWeather_merged:
  assumes "wd_Current data \<noteq> []"
  shows "\<exists>agg. aggregateCurrentWeather data = Some agg
      \<and> acw_Temperature agg = mean (map (cw_Temperature \<circ> snd) (wd_Current data))
      \<and> acw_FeelsLike agg = mean (map (cw_FeelsLike \<circ> snd) (wd_Current data))
      \<and> acw_Humidity agg = mean (map (cw_Humidity \<circ> snd) (wd_Current data))
      \<and> acw_Pressure agg = mean (map (cw_Pressure \<circ> snd) (wd_Current data))
      \<and> acw_WindSpeed agg = mean (map (cw_WindSpeed \<circ> snd) (wd_Current data))
      \<and> acw_LastUpdated agg = max 0 (Max (set (map (cw_Timestamp \<circ> snd) (wd_Current data))))
      \<and> ((\<exists>e \<in> set (wd_Current data). 0 \<le> cw_Timestamp (snd e)) \<longrightarrow>
            acw_LastUpdated agg = Max (set (map (cw_Timestamp \<circ> snd) (wd_Current data))))
      \<and> acw_Sources agg = map fst (wd_Current data)
      \<and> acw_Sources agg \<noteq> []"
proof -
  let ?m = "wd_Current data"
  let ?t = "fold addCurrent ?m zeroCurrentTotals"
  let ?M = "Max (set (map (cw_Timestamp \<circ> snd) ?m))"
  have lt: "latestTimestamp ?t = max 0 ?M"
    using fold_addCurrent_latestTimestamp [OF assms, of zeroCurrentTotals]
    by (simp add: zeroCurrentTotals_def)
  have "max 0 ?M = ?M" if "\<exists>e \<in> set ?m. 0 \<le> cw_Timestamp (snd e)"
  proof -
    from that obtain e where e: "e \<in> set ?m" "0 \<le> cw_Timestamp (snd e)" by blast
    then have "(cw_Timestamp \<circ> snd) e \<in> set (map (cw_Timestamp \<circ> snd) ?m)"
      by (simp only: set_map image_eqI)
    then have "(cw_Timestamp \<circ> snd) e \<le> ?M"
      by (intro Max_ge) simp_all
    with e(2) have "0 \<le> ?M" by simp
    then show ?thesis by (simp only: max_absorb2)
  qed
  with lt show ?thesis
    using assms
    by (simp add: aggregateCurrentWeather_def Let_def mean_def zeroCurrentTotals_def
        fold_addCurrent_totalTemp fold_addCurrent_totalFeelsLike fold_addCurrent_totalHumidity
        fold_addCurrent_totalPressure fold_addCurrent_totalWindSpeed fold_addCurrent_sources)
qed

text \<open>
  C8. The last-updated timestamp of the merged record is not always the latest
  observation timestamp among the contributors. \<^verbatim>\<open>latestTimestamp\<close> starts as the zero
  value of \<^verbatim>\<open>time.Time\<close> and is replaced only by a timestamp after it, so for a reading
  observed five seconds before that zero value, the only contributor, the merged
  record is dated at the zero value, five seconds after the latest observation. The
  mean and the list of providers are as the claim says.
\<close>

theorem C8_last_updated_zero:
  "map_option acw_LastUpdated
     (aggregateCurrentWeather (snapshot [(''openweathermap'', reading 10 (- 5000000000))]))
     = Some 0
   \<and> Max (set (map (cw_Timestamp \<circ> snd)
        (wd_Current (snapshot [(''openweathermap'', reading 10 (- 5000000000))]))))
     = - 5000000000
   \<and> map_option acw_Temperature
       (aggregateCurrentWeather (snapshot [(''openweathermap'', reading 10 (- 5000000000))]))
     = Some 10
   \<and> map_option acw_Sources
       (aggregateCurrentWeather (snapshot [(''openweathermap'', reading 10 (- 5000000000))]))
     = Some [''openweathermap'']"
  by (simp add: aggregateCurrentWeather_def snapshot_def reading_def addCurrent_def
      zeroCurrentTotals_def Let_def)

subsection \<open>The loops of aggregateForecast\<close>

lemma fold_collectForecasts:
  "fold (collectForecasts days) m (af, ss) =
     (af @ map (take (nat days) \<circ> wf_Forecast \<circ> snd) (filter (enoughDays days) m),
      ss @ map fst (filter (enoughDays days) m))"
  by (induction m arbitrary: af ss) (auto simp: collectForecasts_def enoughDays_def)

lemma fold_addDay_dayCount:
  "\<forall>f \<in> set fs. day < length f \<Longrightarrow>
   dayCount (fold (addDay day) fs t) = dayCount t + length fs"
  by (induction fs arbitrary: t) (auto simp: addDay_def Let_def)

lemma fold_addDay_totalMaxTemp:
  "\<forall>f \<in> set fs. day < length f \<Longrightarrow>
   totalMaxTemp (fold (addDay day) fs t) = totalMaxTemp t + sum_list (map (\<lambda>f. fd_MaxTemp (f ! day)) fs)"
  by (induction fs arbitrary: t) (auto simp: addDay_def Let_def)

lemma fold_addDay_totalMinTemp:
  "\<forall>f \<in> set fs. day < length f \<Longrightarrow>
   totalMinTemp (fold (addDay day) fs t) = totalMinTemp t + sum_list (map (\<lambda>f. fd_MinTemp (f ! day)) fs)"
  by (induction fs arbitrary: t) (auto simp: addDay_def Let_def)

lemma fold_addDay_totalAvgTemp:
  "\<forall>f \<in> set fs. day < length f \<Longrightarrow>
   totalAvgTemp (fold (addDay day) fs t) = totalAvgTemp t + sum_list (map (\<lambda>f. fd_AvgTemp (f ! day)) fs)"
  by (induction fs arbitrary: t) (auto simp: addDay_def Let_def)

lemma fold_addDay_dayTotalHumidity:
  "\<forall>f \<in> set fs. day < length f \<Longrightarrow>
   dayTotalHumidity (fold (addDay day) fs t) =
     dayTotalHumidity t + sum_list (map (\<lambda>f. fd_Humidity (f ! day)) fs)"
  by (induction fs arbitrary: t) (auto simp: addDay_def Let_def)

lemma fold_addDay_totalPrecipitation:
  "\<forall>f \<in> set fs. day < length f \<Longrightarrow>
   totalPrecipitation (fold (addDay day) fs t) =
     totalPrecipitation t + sum_list (map (\<lambda>f. fd_Precipitation (f ! day)) fs)"
  by (induction fs arbitrary: t) (auto simp: addDay_def Let_def)

lemma aggregateDay_means:
  assumes "fs \<noteq> []" and "\<forall>f \<in> set fs. day < length f"
  shows "fd_MaxTemp (aggregateDay fs day) = mean (map (\<lambda>f. fd_MaxTemp (f ! day)) fs)
       \<and> fd_MinTemp (aggregateDay fs day) = mean (map (\<lambda>f. fd_MinTemp (f ! day)) fs)
       \<and> fd_AvgTemp (aggregateDay fs day) = mean (map (\<lambda>f. fd_AvgTemp (f ! day)) fs)
       \<and> fd_Humidity (aggregateDay fs day) = mean (map (\<lambda>f. fd_Humidity (f ! day)) fs)
       \<and> fd_Precipitation (aggregateDay fs day) = mean (map (\<lambda>f. fd_Precipitation (f ! day)) fs)"
proof -
  have c: "dayCount (fold (addDay day) fs zeroDayTotals) = length fs"
    using fold_addDay_dayCount [OF assms(2), of zeroDayTotals] by (simp add: zeroDayTotals_def)
  have nz: "length fs \<noteq> 0" using assms(1) by simp
  have z: "totalMaxTemp zeroDayTotals = 0" "totalMinTemp zeroDayTotals = 0"
    "totalAvgTemp zeroDayTotals = 0" "dayTotalHumidity zeroDayTotals = 0"
    "totalPrecipitation zeroDayTotals = 0"
    by (simp_all add: zeroDayTotals_def)
  show ?thesis
    using nz assms(2)
    by (simp add: aggregateDay_def Let_def c mean_def fold_addDay_totalMaxTemp
        fold_addDay_totalMinTemp fold_addDay_totalAvgTemp fold_addDay_dayTotalHumidity
        fold_addDay_totalPrecipitation z)
qed

lemma aggregateForecast_result:
  assumes "0 \<le> days"
  shows "aggregateForecast now data days =
     (if contributors data days = [] then Inr None
      else Inr (Some
        \<lparr>af_City = wd_City data,
         af_Days = map (aggregateDay (map (take (nat days) \<circ> wf_Forecast \<circ> snd) (contributors data days)))
                     [0..<nat days],
         af_LastUpdated = now,
         af_Sources = map fst (contributors data days)\<rparr>))"
proof (cases "wd_Forecasts data = []")
  case True
  then show ?thesis by (simp add: aggregateForecast_def contributors_def)
next
  case False
  then show ?thesis
    using assms
    by (simp add: aggregateForecast_def contributors_def fold_collectForecasts)
qed

text \<open>
  C9. For every day-count (not negative) the forecast merge uses exactly the providers
  that supplied at least that many forecast entries: they are the listed sources, the
  merged forecast has day-count days, and day \<open>i\<close> of it averages entry \<open>i\<close> of each of
  them, so only their first day-count entries are read. When no provider supplied
  enough entries the result is absent, not an empty forecast.
\<close>

theorem C9_merge_forecast:
  assumes "0 \<le> days"
  shows "(contributors data days = [] \<longrightarrow> aggregateForecast now data days = Inr None)
       \<and> (contributors data days \<noteq> [] \<longrightarrow>
            (\<exists>agg. aggregateForecast now data days = Inr (Some agg)
               \<and> af_Sources agg = map fst (contributors data days)
               \<and> length (af_Days agg) = nat days
               \<and> (\<forall>i < nat days.
                     fd_MaxTemp (af_Days agg ! i) =
                       mean (map (\<lambda>(s, f). fd_MaxTemp (wf_Forecast f ! i)) (contributors data days))
                   \<and> fd_MinTemp (af_Days agg ! i) =
                       mean (map (\<lambda>(s, f). fd_MinTemp (wf_Forecast f ! i)) (contributors data days))
                   \<and> fd_AvgTemp (af_Days agg ! i) =
                       mean (map (\<lambda>(s, f). fd_AvgTemp (wf_Forecast f ! i)) (contributors data days))
                   \<and> fd_Humidity (af_Days agg ! i) =
                       mean (map (\<lambda>(s, f). fd_Humidity (wf_Forecast f ! i)) (contributors data days))
                   \<and> fd_Precipitation (af_Days agg ! i) =
                       mean (map (\<lambda>(s, f). fd_Precipitation (wf_Forecast f ! i)) (contributors data days)))))"
proof -
  let ?cs = "contributors data days"
  let ?fs = "map (take (nat days) \<circ> wf_Forecast \<circ> snd) ?cs"
  have len: "\<forall>f \<in> set ?fs. length f = nat days"
    using assms by (auto simp: contributors_def enoughDays_def)
  have ix: "map (\<lambda>f. g (f ! i)) ?fs = map (\<lambda>(s, f). g (wf_Forecast f ! i)) ?cs"
    if "i < nat days" for i and g :: "ForecastDay \<Rightarrow> real"
    using that by (simp add: case_prod_beta)
  have day: "fd_MaxTemp (aggregateDay ?fs i) = mean (map (\<lambda>(s, f). fd_MaxTemp (wf_Forecast f ! i)) ?cs)
       \<and> fd_MinTemp (aggregateDay ?fs i) = mean (map (\<lambda>(s, f). fd_MinTemp (wf_Forecast f ! i)) ?cs)
       \<and> fd_AvgTemp (aggregateDay ?fs i) = mean (map (\<lambda>(s, f). fd_AvgTemp (wf_Forecast f ! i)) ?cs)
       \<and> fd_Humidity (aggregateDay ?fs i) = mean (map (\<lambda>(s, f). fd_Humidity (wf_Forecast f ! i)) ?cs)
       \<and> fd_Precipitation (aggregateDay ?fs i) =
           mean (map (\<lambda>(s, f). fd_Precipitation (wf_Forecast f ! i)) ?cs)"
    if "i < nat days" "?cs \<noteq> []" for i
  proof -
    have ne: "?fs \<noteq> []" using that(2) by simp
    have lt: "\<forall>f \<in> set ?fs. i < length f" using len that(1) by simp
    show ?thesis
      using aggregateDay_means [OF ne lt] by (simp only: ix [OF that(1)])
  qed
  show ?thesis
    using day by (simp add: aggregateForecast_result [OF assms])
qed

theorem C9_merge_forecast_witness:
  "(0::int) \<le> 2
   \<and> contributors forecastSnapshot 2 \<noteq> []
   \<and> map_option af_Sources (projr (aggregateForecast 100 forecastSnapshot 2)) = Some [''open-meteo'']
   \<and> map_option (length \<circ> af_Days) (projr (aggregateForecast 100 forecastSnapshot 2)) = Some 2
   \<and> map_option (\<lambda>agg. fd_AvgTemp (af_Days agg ! 1)) (projr (aggregateForecast 100 forecastSnapshot 2))
       = Some 12
   \<and> contributors forecastSnapshot 4 = []
   \<and> aggregateForecast 100 forecastSnapshot 4 = Inr None"
  using C9_merge_forecast [of 2 forecastSnapshot 100] C9_merge_forecast [of 4 forecastSnapshot 100]
  by (auto simp: contributors_def enoughDays_def forecastSnapshot_def forecastOf_def forecastDay_def
      mean_def)

subsection \<open>Cache reads\<close>

lemma map_of_mutateCity_same:
  "map_of fs city = Some inner \<Longrightarrow> map_of (mutateCity city f fs) city = Some (f inner)"
  by (simp add: mutateCity_def update_conv')

lemma map_of_mutateCity_other:
  "k \<noteq> city \<Longrightarrow> map_of (mutateCity city f fs) k = map_of fs k"
  by (simp add: mutateCity_def update_conv' split: option.splits)

lemma GetCurrentWeather_expired:
  assumes "map_of (c_currentWeather c) city = Some item" and "now > ExpiresAt item"
  shows "fst (GetCurrentWeather now c city) = (None, False)
       \<and> map_of (c_currentWeather (snd (GetCurrentWeather now c city))) city = None
       \<and> (\<forall>k. k \<noteq> city \<longrightarrow>
             map_of (c_currentWeather (snd (GetCurrentWeather now c city))) k
               = map_of (c_currentWeather c) k)
       \<and> c_forecast (snd (GetCurrentWeather now c city)) = c_forecast c"
  using assms by (simp add: GetCurrentWeather_def delete_conv')

lemma GetCurrentWeather_served:
  assumes "snd (fst (GetCurrentWeather now c city))"
  shows "\<exists>item. map_of (c_currentWeather c) city = Some item
           \<and> fst (fst (GetCurrentWeather now c city)) = Data item
           \<and> now \<le> ExpiresAt item"
  using assms by (auto simp: GetCurrentWeather_def split: option.splits if_splits)

lemma GetForecast_expired:
  assumes "map_of (c_forecast c) city = Some cityForecasts"
    and "map_of cityForecasts days = Some item" and "now > ExpiresAt item"
  shows "fst (GetForecast now c city days) = (None, False)
       \<and> (\<exists>cityForecasts'.
             map_of (c_forecast (snd (GetForecast now c city days))) city = Some cityForecasts'
           \<and> map_of cityForecasts' days = None
           \<and> (\<forall>d. d \<noteq> days \<longrightarrow> map_of cityForecasts' d = map_of cityForecasts d))
       \<and> (\<forall>k. k \<noteq> city \<longrightarrow>
             map_of (c_forecast (snd (GetForecast now c city days))) k = map_of (c_forecast c) k)
       \<and> c_currentWeather (snd (GetForecast now c city days)) = c_currentWeather c"
  using assms
  by (simp add: GetForecast_def map_of_mutateCity_same map_of_mutateCity_other delete_conv')

lemma GetForecast_served:
  assumes "snd (fst (GetForecast now c city days))"
  shows "\<exists>cityForecasts item. map_of (c_forecast c) city = Some cityForecasts
           \<and> map_of cityForecasts days = Some item
           \<and> fst (fst (GetForecast now c city days)) = Data item
           \<and> now \<le> ExpiresAt item"
  using assms by (auto simp: GetForecast_def split: option.splits if_splits)

text \<open>
  C3. A cache read whose stored entry is past its expiry instant returns absent and
  deletes that entry (and nothing else) from its store; it needs no sweep, the read
  itself does it. Whenever a read returns a payload, the payload is the stored one and
  the reading of the clock is not past the entry's expiry instant. Both hold for
  \<open>GetCurrentWeather\<close> and for \<open>GetForecast\<close>.
\<close>

theorem C3_read_expiry:
  "(\<forall>item. map_of (c_currentWeather c) city = Some item \<and> now > ExpiresAt item \<longrightarrow>
      fst (GetCurrentWeather now c city) = (None, False)
      \<and> map_of (c_currentWeather (snd (GetCurrentWeather now c city))) city = None
      \<and> (\<forall>k. k \<noteq> city \<longrightarrow>
            map_of (c_currentWeather (snd (GetCurrentWeather now c city))) k
              = map_of (c_currentWeather c) k))
   \<and> (snd (fst (GetCurrentWeather now c city)) \<longrightarrow>
        (\<exists>item. map_of (c_currentWeather c) city = Some item
           \<and> fst (fst (GetCurrentWeather now c city)) = Data item
           \<and> now \<le> ExpiresAt item))
   \<and> (\<forall>cityForecasts item.
        map_of (c_forecast c) city = Some cityForecasts
        \<and> map_of cityForecasts days = Some item \<and> now > ExpiresAt item \<longrightarrow>
        fst (GetForecast now c city days) = (None, False)
        \<and> (\<exists>cityForecasts'.
              map_of (c_forecast (snd (GetForecast now c city days))) city = Some cityForecasts'
            \<and> map_of cityForecasts' days = None
            \<and> (\<forall>d. d \<noteq> days \<longrightarrow> map_of cityForecasts' d = map_of cityForecasts d))
        \<and> (\<forall>k. k \<noteq> city \<longrightarrow>
              map_of (c_forecast (snd (GetForecast now c city days))) k = map_of (c_forecast c) k))
   \<and> (snd (fst (GetForecast now c city days)) \<longrightarrow>
        (\<exists>cityForecasts item. map_of (c_forecast c) city = Some cityForecasts
           \<and> map_of cityForecasts days = Some item
           \<and> fst (fst (GetForecast now c city days)) = Data item
           \<and> now \<le> ExpiresAt item))"
  using GetCurrentWeather_expired [of c city _ now] GetCurrentWeather_served [of now c city]
    GetForecast_expired [of c city _ days _ now] GetForecast_served [of now c city days]
  by blast

theorem C3_read_expiry_witness:
  "map_of (c_currentWeather sampleCache) ''Prague'' = Some \<lparr>Data = Some sampleCurrent, ExpiresAt = 600\<rparr>
   \<and> (601::int) > 600
   \<and> fst (GetCurrentWeather 601 sampleCache ''Prague'') = (None, False)
   \<and> map_of (c_currentWeather (snd (GetCurrentWeather 601 sampleCache ''Prague''))) ''Prague'' = None
   \<and> fst (GetCurrentWeather 600 sampleCache ''Prague'') = (Some sampleCurrent, True)
   \<and> fst (GetForecast 601 sampleCache ''Prague'' 3) = (None, False)
   \<and> map_option (\<lambda>m. map_of m 3)
        (map_of (c_forecast (snd (GetForecast 601 sampleCache ''Prague'' 3))) ''Prague'') = Some None
   \<and> fst (GetForecast 600 sampleCache ''Prague'' 3) = (Some sampleForecast, True)"
  using C3_read_expiry [of sampleCache "''Prague''" 601 3] C3_read_expiry [of sampleCache "''Prague''" 600 3]
  by (simp add: sampleCache_def GetCurrentWeather_def GetForecast_def mutateCity_def)

subsection \<open>Eviction from the current-weather store\<close>

lemma length_delete_present:
  "distinct (map fst m) \<Longrightarrow> k \<in> fst ` set m \<Longrightarrow> length (AList.delete k m) = length m - 1"
proof (induction m)
  case Nil
  then show ?case by simp
next
  case (Cons x xs)
  obtain a b where x: "x = (a, b)" by (cases x)
  show ?case
  proof (cases "a = k")
    case True
    with Cons.prems x have "k \<notin> fst ` set xs" by auto
    then have "AList.delete k xs = xs" by (rule delete_id)
    with True x show ?thesis by simp
  next
    case False
    with Cons.prems x have k: "k \<in> fst ` set xs" and d: "distinct (map fst xs)" by auto
    from k have "xs \<noteq> []" by auto
    then have "0 < length xs" by simp
    with False x Cons.IH [OF d k] show ?thesis by simp
  qed
qed

lemma length_update_alist:
  "length (AList.update k v m) = (if k \<in> fst ` set m then length m else Suc (length m))"
  by (induction m) auto

lemma length_update_le: "length (AList.update k v m) \<le> Suc (length m)"
  by (simp add: length_update_alist)

lemma oldestCurrent_step_scan:
  assumes "\<forall>e \<in> set m. fst e \<noteq> ''''" and "k0 \<noteq> ''''"
    and "fold (\<lambda>(key, item) (oldestKey, oldestTime).
             if oldestKey = '''' \<or> ExpiresAt item < oldestTime then (key, ExpiresAt item)
             else (oldestKey, oldestTime)) m (k0, t0) = (k, t)"
  shows "k \<noteq> '''' \<and> t \<le> t0 \<and> (\<forall>e \<in> set m. t \<le> ExpiresAt (snd e))
       \<and> ((k, t) = (k0, t0) \<or> (\<exists>e \<in> set m. fst e = k \<and> ExpiresAt (snd e) = t))"
  using assms
proof (induction m arbitrary: k0 t0)
  case Nil
  then show ?case by simp
next
  case (Cons x xs)
  obtain key item where x: "x = (key, item)" by (cases x)
  have key: "key \<noteq> ''''" using Cons.prems(1) x by auto
  have rest: "\<forall>e \<in> set xs. fst e \<noteq> ''''" using Cons.prems(1) by simp
  show ?case
  proof (cases "ExpiresAt item < t0")
    case True
    then have "fold (\<lambda>(key, item) (oldestKey, oldestTime).
             if oldestKey = '''' \<or> ExpiresAt item < oldestTime then (key, ExpiresAt item)
             else (oldestKey, oldestTime)) xs (key, ExpiresAt item) = (k, t)"
      using Cons.prems(3) x by simp
    from Cons.IH [OF rest key this] True x show ?thesis by auto
  next
    case False
    then have "fold (\<lambda>(key, item) (oldestKey, oldestTime).
             if oldestKey = '''' \<or> ExpiresAt item < oldestTime then (key, ExpiresAt item)
             else (oldestKey, oldestTime)) xs (k0, t0) = (k, t)"
      using Cons.prems(2,3) x by simp
    from Cons.IH [OF rest Cons.prems(2) this] False x show ?thesis by auto
  qed
qed

lemma oldestCurrent_earliest:
  assumes "m \<noteq> []" and "\<forall>e \<in> set m. fst e \<noteq> ''''" and "oldestCurrent m = (k, t)"
  shows "k \<noteq> '''' \<and> (\<exists>e \<in> set m. fst e = k \<and> ExpiresAt (snd e) = t)
       \<and> (\<forall>e \<in> set m. t \<le> ExpiresAt (snd e))"
proof -
  obtain x xs where m: "m = x # xs" using assms(1) by (cases m) auto
  obtain key item where x: "x = (key, item)" by (cases x)
  have key: "key \<noteq> ''''" using assms(2) m x by auto
  have rest: "\<forall>e \<in> set xs. fst e \<noteq> ''''" using assms(2) m by simp
  have "fold (\<lambda>(key, item) (oldestKey, oldestTime).
             if oldestKey = '''' \<or> ExpiresAt item < oldestTime then (key, ExpiresAt item)
             else (oldestKey, oldestTime)) xs (key, ExpiresAt item) = (k, t)"
    using assms(3) m x by (simp add: oldestCurrent_def)
  from oldestCurrent_step_scan [OF rest key this] m x show ?thesis by auto
qed

lemma evictOldestCurrent_earliest:
  assumes "c_currentWeather c \<noteq> []" and "distinct (map fst (c_currentWeather c))"
    and "\<forall>e \<in> set (c_currentWeather c). fst e \<noteq> ''''"
  shows "\<exists>k item. map_of (c_currentWeather c) k = Some item
           \<and> (\<forall>e \<in> set (c_currentWeather c). ExpiresAt item \<le> ExpiresAt (snd e))
           \<and> evictOldestCurrent c = c\<lparr>c_currentWeather := AList.delete k (c_currentWeather c)\<rparr>"
proof -
  obtain k t where kt: "oldestCurrent (c_currentWeather c) = (k, t)"
    by (cases "oldestCurrent (c_currentWeather c)")
  from oldestCurrent_earliest [OF assms(1) assms(3) kt]
  obtain e where e: "k \<noteq> ''''" "e \<in> set (c_currentWeather c)" "fst e = k" "ExpiresAt (snd e) = t"
    and least: "\<forall>e \<in> set (c_currentWeather c). t \<le> ExpiresAt (snd e)"
    by blast
  have "map_of (c_currentWeather c) k = Some (snd e)"
    using e(2,3) assms(2) by (cases e) auto
  moreover have "evictOldestCurrent c = c\<lparr>c_currentWeather := AList.delete k (c_currentWeather c)\<rparr>"
    using kt e(1) by (simp add: evictOldestCurrent_def)
  ultimately show ?thesis using least e(4) by blast
qed

lemma SetCurrentWeather_bound:
  assumes "distinct (map fst (c_currentWeather c))"
    and "\<forall>e \<in> set (c_currentWeather c). fst e \<noteq> ''''"
    and "1 \<le> c_maxSize c" and "int (length (c_currentWeather c)) \<le> c_maxSize c"
  shows "int (length (c_currentWeather (SetCurrentWeather now c city weather))) \<le> c_maxSize c"
proof (cases "int (length (c_currentWeather c)) \<ge> c_maxSize c")
  case False
  let ?item = "\<lparr>Data = weather, ExpiresAt = now + c_defaultDuration c\<rparr>"
  have "length (AList.update city ?item (c_currentWeather c)) \<le> Suc (length (c_currentWeather c))"
    by (rule length_update_le)
  with False have "int (length (AList.update city ?item (c_currentWeather c))) \<le> c_maxSize c"
    by linarith
  with False show ?thesis
    by (simp add: SetCurrentWeather_def Let_def)
next
  case True
  let ?item = "\<lparr>Data = weather, ExpiresAt = now + c_defaultDuration c\<rparr>"
  from True assms(3) have ne: "c_currentWeather c \<noteq> []" by auto
  from evictOldestCurrent_earliest [OF ne assms(1) assms(2)]
  obtain k item where k: "map_of (c_currentWeather c) k = Some item"
    and ev: "evictOldestCurrent c = c\<lparr>c_currentWeather := AList.delete k (c_currentWeather c)\<rparr>"
    by blast
  have "k \<in> fst ` set (c_currentWeather c)"
    using k by (auto dest: map_of_SomeD intro: rev_image_eqI)
  then have len: "length (AList.delete k (c_currentWeather c)) = length (c_currentWeather c) - 1"
    using assms(1) by (rule length_delete_present [rotated])
  have pos: "0 < length (c_currentWeather c)" using ne by simp
  have "length (AList.update city ?item (AList.delete k (c_currentWeather c)))
       \<le> Suc (length (AList.delete k (c_currentWeather c)))"
    by (rule length_update_le)
  with len pos assms(4)
  have "int (length (AList.update city ?item (AList.delete k (c_currentWeather c)))) \<le> c_maxSize c"
    by linarith
  with True show ?thesis
    by (simp add: SetCurrentWeather_def Let_def ev)
qed
subsection \<open>Eviction from the forecast store\<close>

lemma length_forecastEntries:
  "length (forecastEntries fs) = sum_list (map (length \<circ> snd) fs)"
  by (induction fs) (auto simp: forecastEntries_def)

lemma set_forecastEntries:
  "(city, days, item) \<in> set (forecastEntries fs) \<longleftrightarrow>
     (\<exists>inner. (city, inner) \<in> set fs \<and> (days, item) \<in> set inner)"
  by (auto simp: forecastEntries_def)

lemma totalItems_occupancy: "totalItems c = int (occupancy c)"
proof -
  have "fold (\<lambda>(_, cityForecasts) total. total + int (length cityForecasts)) fs n
      = n + int (sum_list (map (length \<circ> snd) fs))" for fs :: forecastStore and n
    by (induction fs arbitrary: n) auto
  then show ?thesis
    by (simp add: totalItems_def occupancy_def length_forecastEntries)
qed

lemma update_absent_append:
  "map_of fs k = None \<Longrightarrow> AList.update k v fs = fs @ [(k, v)]"
  by (induction fs) (auto split: if_splits)

lemma entries_update_absent:
  "map_of fs city = None \<Longrightarrow>
   sum_list (map (length \<circ> snd) (AList.update city [] fs)) = sum_list (map (length \<circ> snd) fs)"
  by (induction fs) (auto split: if_splits)

lemma entries_update_present:
  "distinct (map fst fs) \<Longrightarrow> map_of fs city = Some inner \<Longrightarrow>
   sum_list (map (length \<circ> snd) (AList.update city inner' fs)) + length inner
     = sum_list (map (length \<circ> snd) fs) + length inner'"
  by (induction fs) (auto split: if_splits)

lemma entries_mutateCity:
  "distinct (map fst fs) \<Longrightarrow> map_of fs city = Some inner \<Longrightarrow>
   length (forecastEntries (mutateCity city f fs)) + length inner
     = length (forecastEntries fs) + length (f inner)"
  by (simp add: mutateCity_def length_forecastEntries entries_update_present)

lemma oldestForecast_flat:
  "fold (\<lambda>(city, forecasts) acc. fold (oldestForecastStep city) forecasts acc) fs acc
     = fold (\<lambda>(city, entry). oldestForecastStep city entry) (forecastEntries fs) acc"
proof (induction fs arbitrary: acc)
  case Nil
  then show ?case by (simp add: forecastEntries_def)
next
  case (Cons x xs)
  obtain city forecasts where x: "x = (city, forecasts)" by (cases x)
  have inner: "fold (oldestForecastStep city) forecasts a
      = fold (\<lambda>(city, entry). oldestForecastStep city entry)
          (map (\<lambda>(days, item). (city, days, item)) forecasts) a" for a
    by (induction forecasts arbitrary: a) auto
  have "forecastEntries (x # xs)
      = map (\<lambda>(days, item). (city, days, item)) forecasts @ forecastEntries xs"
    by (simp add: forecastEntries_def x)
  then show ?case
    using Cons.IH by (simp add: x inner)
qed

lemma oldestForecast_step_scan:
  assumes "\<forall>e \<in> set es. fst e \<noteq> ''''" and "c0 \<noteq> ''''"
    and "fold (\<lambda>(city, entry). oldestForecastStep city entry) es (c0, d0, t0) = (oc, od, ot)"
  shows "oc \<noteq> '''' \<and> ot \<le> t0 \<and> (\<forall>e \<in> set es. ot \<le> ExpiresAt (snd (snd e)))
       \<and> ((oc, od, ot) = (c0, d0, t0)
           \<or> (\<exists>item. (oc, od, item) \<in> set es \<and> ExpiresAt item = ot))"
  using assms
proof (induction es arbitrary: c0 d0 t0)
  case Nil
  then show ?case by simp
next
  case (Cons x xs)
  obtain city days item where x: "x = (city, days, item)" by (cases x) auto
  have city: "city \<noteq> ''''" using Cons.prems(1) x by auto
  have rest: "\<forall>e \<in> set xs. fst e \<noteq> ''''" using Cons.prems(1) by simp
  have step: "oldestForecastStep city (days, item) (c0, d0, t0)
      = (if ExpiresAt item < t0 then (city, days, ExpiresAt item) else (c0, d0, t0))"
    using Cons.prems(2) by (simp add: oldestForecastStep_def)
  show ?case
  proof (cases "ExpiresAt item < t0")
    case True
    then have "fold (\<lambda>(city, entry). oldestForecastStep city entry) xs (city, days, ExpiresAt item)
        = (oc, od, ot)"
      using Cons.prems(3) x step by simp
    from Cons.IH [OF rest city this] True x show ?thesis by auto
  next
    case False
    then have "fold (\<lambda>(city, entry). oldestForecastStep city entry) xs (c0, d0, t0) = (oc, od, ot)"
      using Cons.prems(3) x step by simp
    from Cons.IH [OF rest Cons.prems(2) this] False x show ?thesis by auto
  qed
qed

lemma oldestForecast_earliest:
  assumes "forecastEntries fs \<noteq> []" and "\<forall>e \<in> set fs. fst e \<noteq> ''''"
    and "oldestForecast fs = (oc, od, ot)"
  shows "oc \<noteq> '''' \<and> (\<exists>item. (oc, od, item) \<in> set (forecastEntries fs) \<and> ExpiresAt item = ot)
       \<and> (\<forall>e \<in> set (forecastEntries fs). ot \<le> ExpiresAt (snd (snd e)))"
proof -
  obtain x xs where es: "forecastEntries fs = x # xs" using assms(1) by (cases "forecastEntries fs") auto
  obtain city days item where x: "x = (city, days, item)" by (cases x) auto
  have keys: "\<forall>e \<in> set (forecastEntries fs). fst e \<noteq> ''''"
    using assms(2) by (auto simp: forecastEntries_def)
  then have city: "city \<noteq> ''''" and rest: "\<forall>e \<in> set xs. fst e \<noteq> ''''"
    using es x by auto
  have step: "oldestForecastStep city (days, item) ('''', 0, 0) = (city, days, ExpiresAt item)"
    by (simp add: oldestForecastStep_def)
  have "fold (\<lambda>(city, entry). oldestForecastStep city entry) xs (city, days, ExpiresAt item)
      = (oc, od, ot)"
    using assms(3) es x step by (simp add: oldestForecast_def oldestForecast_flat)
  from oldestForecast_step_scan [OF rest city this] es x show ?thesis by auto
qed

lemma evictOldestForecast_earliest:
  assumes "forecastEntries (c_forecast c) \<noteq> []" and "distinct (map fst (c_forecast c))"
    and "\<forall>e \<in> set (c_forecast c). fst e \<noteq> '''' \<and> distinct (map fst (snd e))"
  shows "\<exists>oc od inner item.
           map_of (c_forecast c) oc = Some inner \<and> map_of inner od = Some item
         \<and> (\<forall>e \<in> set (forecastEntries (c_forecast c)). ExpiresAt item \<le> ExpiresAt (snd (snd e)))
         \<and> evictOldestForecast c = c\<lparr>c_forecast := mutateCity oc (AList.delete od) (c_forecast c)\<rparr>
         \<and> Suc (length (forecastEntries (c_forecast (evictOldestForecast c))))
             = length (forecastEntries (c_forecast c))"
proof -
  obtain oc od ot where o: "oldestForecast (c_forecast c) = (oc, od, ot)"
    by (cases "oldestForecast (c_forecast c)") auto
  have keys: "\<forall>e \<in> set (c_forecast c). fst e \<noteq> ''''" using assms(3) by simp
  from oldestForecast_earliest [OF assms(1) keys o]
  obtain item where oc: "oc \<noteq> ''''" and mem: "(oc, od, item) \<in> set (forecastEntries (c_forecast c))"
    and exp: "ExpiresAt item = ot"
    and least: "\<forall>e \<in> set (forecastEntries (c_forecast c)). ot \<le> ExpiresAt (snd (snd e))"
    by blast
  from mem obtain inner where inner: "(oc, inner) \<in> set (c_forecast c)" "(od, item) \<in> set inner"
    by (auto simp: set_forecastEntries)
  have m1: "map_of (c_forecast c) oc = Some inner"
    using inner(1) assms(2) by simp
  have dinner: "distinct (map fst inner)"
    using inner(1) assms(3) by auto
  then have m2: "map_of inner od = Some item"
    using inner(2) by simp
  have ev: "evictOldestForecast c = c\<lparr>c_forecast := mutateCity oc (AList.delete od) (c_forecast c)\<rparr>"
    using o oc by (simp add: evictOldestForecast_def)
  have "od \<in> fst ` set inner" using inner(2) by (auto intro: rev_image_eqI)
  then have "length (AList.delete od inner) = length inner - 1"
    using dinner by (rule length_delete_present [rotated])
  moreover have "0 < length inner" using inner(2) by (cases inner) auto
  moreover note entries_mutateCity [OF assms(2) m1, of "AList.delete od"]
  ultimately have "Suc (length (forecastEntries (mutateCity oc (AList.delete od) (c_forecast c))))
      = length (forecastEntries (c_forecast c))"
    by linarith
  with m1 m2 least exp ev show ?thesis by auto
qed

lemma SetForecast_city_present:
  "map_of (c_forecast c) city \<noteq> None \<Longrightarrow> map_of (c_forecast (evictOldestForecast c)) city \<noteq> None"
  by (auto simp: evictOldestForecast_def mutateCity_def update_conv' split: prod.splits option.splits)

lemma SetForecast_bound:
  assumes "distinct (map fst (c_forecast c))"
    and "\<forall>e \<in> set (c_forecast c). fst e \<noteq> '''' \<and> distinct (map fst (snd e))"
    and "city \<noteq> ''''"
    and "int (occupancy c) \<le> c_maxSize c"
    and "int (occupancy c) < c_maxSize c \<or> forecastEntries (c_forecast c) \<noteq> []"
  shows "int (occupancy (SetForecast now c city days forecast)) \<le> c_maxSize c"
proof -
  define c1 where "c1 = (if map_of (c_forecast c) city = None
               then c\<lparr>c_forecast := AList.update city [] (c_forecast c)\<rparr> else c)"
  define c2 where "c2 = (if totalItems c1 \<ge> c_maxSize c1 then evictOldestForecast c1 else c1)"
  let ?item = "\<lparr>Data = forecast, ExpiresAt = now + c_defaultDuration c2\<rparr>"
  have res: "SetForecast now c city days forecast
      = c2\<lparr>c_forecast := mutateCity city (AList.update days ?item) (c_forecast c2)\<rparr>"
    by (simp add: SetForecast_def Let_def c1_def c2_def)
  have cur1: "c_currentWeather c1 = c_currentWeather c" and max1: "c_maxSize c1 = c_maxSize c"
    by (simp_all add: c1_def)
  have ent1: "length (forecastEntries (c_forecast c1)) = length (forecastEntries (c_forecast c))"
    by (simp add: c1_def length_forecastEntries entries_update_absent)
  have occ1: "occupancy c1 = occupancy c"
    by (simp add: occupancy_def cur1 ent1)
  have d1: "distinct (map fst (c_forecast c1))"
    using assms(1) by (simp add: c1_def distinct_update)
  have wf1: "\<forall>e \<in> set (c_forecast c1). fst e \<noteq> '''' \<and> distinct (map fst (snd e))"
  proof
    fix e assume "e \<in> set (c_forecast c1)"
    then have "e \<in> set (c_forecast c) \<or> e = (city, [])"
      by (auto simp: c1_def update_absent_append split: if_splits)
    then show "fst e \<noteq> '''' \<and> distinct (map fst (snd e))"
      using assms(2,3) by auto
  qed
  have p1: "map_of (c_forecast c1) city \<noteq> None"
    by (simp add: c1_def update_conv')
  have cur2: "c_currentWeather c2 = c_currentWeather c" and max2: "c_maxSize c2 = c_maxSize c"
    by (simp_all add: c2_def cur1 max1 evictOldestForecast_def split: prod.splits)
  have p2: "map_of (c_forecast c2) city \<noteq> None"
    using p1 SetForecast_city_present [of c1 city] by (simp add: c2_def)
  have d2: "distinct (map fst (c_forecast c2))"
    using d1
    by (auto simp: c2_def evictOldestForecast_def mutateCity_def distinct_update
        split: prod.splits option.splits)
  have room: "int (length (c_currentWeather c2)) + int (length (forecastEntries (c_forecast c2))) + 1
      \<le> c_maxSize c"
  proof (cases "totalItems c1 \<ge> c_maxSize c1")
    case False
    then show ?thesis
      using occ1 by (simp add: c2_def totalItems_occupancy max1 occupancy_def cur1)
  next
    case True
    with assms(4,5) have ne: "forecastEntries (c_forecast c1) \<noteq> []"
      using ent1 by (auto simp: totalItems_occupancy occ1 max1)
    from evictOldestForecast_earliest [OF ne d1 wf1]
    have "Suc (length (forecastEntries (c_forecast (evictOldestForecast c1))))
        = length (forecastEntries (c_forecast c1))"
      by blast
    with True assms(4) show ?thesis
      using ent1 cur2 by (simp add: c2_def occupancy_def)
  qed
  from p2 obtain inner where inner: "map_of (c_forecast c2) city = Some inner" by auto
  have "length (forecastEntries (mutateCity city (AList.update days ?item) (c_forecast c2)))
        + length inner
      = length (forecastEntries (c_forecast c2)) + length (AList.update days ?item inner)"
    by (rule entries_mutateCity [OF d2 inner])
  moreover have "length (AList.update days ?item inner) \<le> Suc (length inner)"
    by (rule length_update_le)
  ultimately have "length (forecastEntries (mutateCity city (AList.update days ?item) (c_forecast c2)))
      \<le> Suc (length (forecastEntries (c_forecast c2)))"
    by linarith
  with room show ?thesis
    by (simp add: res occupancy_def max2)
qed
lemma forecastEntries_ensure_city:
  "map_of fs city = None \<Longrightarrow> forecastEntries (AList.update city [] fs) = forecastEntries fs"
  by (simp add: update_absent_append forecastEntries_def)

lemma SetCurrentWeather_evicts:
  assumes "c_currentWeather c \<noteq> []" and "distinct (map fst (c_currentWeather c))"
    and "\<forall>e \<in> set (c_currentWeather c). fst e \<noteq> ''''"
    and "c_maxSize c \<le> int (length (c_currentWeather c))"
  shows "\<exists>k item. map_of (c_currentWeather c) k = Some item
           \<and> (\<forall>e \<in> set (c_currentWeather c). ExpiresAt item \<le> ExpiresAt (snd e))
           \<and> SetCurrentWeather now c city weather =
               c\<lparr>c_currentWeather :=
                   AList.update city \<lparr>Data = weather, ExpiresAt = now + c_defaultDuration c\<rparr>
                     (AList.delete k (c_currentWeather c))\<rparr>"
proof -
  from evictOldestCurrent_earliest [OF assms(1,2,3)]
  obtain k item where k: "map_of (c_currentWeather c) k = Some item"
    and least: "\<forall>e \<in> set (c_currentWeather c). ExpiresAt item \<le> ExpiresAt (snd e)"
    and ev: "evictOldestCurrent c = c\<lparr>c_currentWeather := AList.delete k (c_currentWeather c)\<rparr>"
    by blast
  have "SetCurrentWeather now c city weather =
      c\<lparr>c_currentWeather :=
          AList.update city \<lparr>Data = weather, ExpiresAt = now + c_defaultDuration c\<rparr>
            (AList.delete k (c_currentWeather c))\<rparr>"
    using assms(4) by (simp add: SetCurrentWeather_def Let_def ev)
  with k least show ?thesis by blast
qed

lemma SetForecast_evicts:
  assumes "distinct (map fst (c_forecast c))"
    and "\<forall>e \<in> set (c_forecast c). fst e \<noteq> '''' \<and> distinct (map fst (snd e))"
    and "city \<noteq> ''''"
    and "forecastEntries (c_forecast c) \<noteq> []"
    and "c_maxSize c \<le> int (occupancy c)"
  shows "\<exists>oc od inner item.
           map_of (c_forecast c) oc = Some inner \<and> map_of inner od = Some item
         \<and> (\<forall>e \<in> set (forecastEntries (c_forecast c)). ExpiresAt item \<le> ExpiresAt (snd (snd e)))
         \<and> SetForecast now c city days forecast =
             c\<lparr>c_forecast :=
                 mutateCity city
                   (AList.update days \<lparr>Data = forecast, ExpiresAt = now + c_defaultDuration c\<rparr>)
                   (mutateCity oc (AList.delete od)
                      (if map_of (c_forecast c) city = None
                       then AList.update city [] (c_forecast c) else c_forecast c))\<rparr>"
proof -
  define fs1 where "fs1 = (if map_of (c_forecast c) city = None
                       then AList.update city [] (c_forecast c) else c_forecast c)"
  define c1 where "c1 = c\<lparr>c_forecast := fs1\<rparr>"
  have c1: "(if map_of (c_forecast c) city = None
               then c\<lparr>c_forecast := AList.update city [] (c_forecast c)\<rparr> else c) = c1"
    by (simp add: c1_def fs1_def)
  have ent: "forecastEntries fs1 = forecastEntries (c_forecast c)"
    by (simp add: fs1_def forecastEntries_ensure_city)
  have occ: "occupancy c1 = occupancy c"
    by (simp add: occupancy_def c1_def ent)
  have ne: "forecastEntries (c_forecast c1) \<noteq> []"
    using assms(4) by (simp add: c1_def ent)
  have d1: "distinct (map fst (c_forecast c1))"
    using assms(1) by (simp add: c1_def fs1_def distinct_update)
  have wf1: "\<forall>e \<in> set (c_forecast c1). fst e \<noteq> '''' \<and> distinct (map fst (snd e))"
  proof
    fix e assume "e \<in> set (c_forecast c1)"
    then have "e \<in> set (c_forecast c) \<or> e = (city, [])"
      by (auto simp: c1_def fs1_def update_absent_append split: if_splits)
    then show "fst e \<noteq> '''' \<and> distinct (map fst (snd e))"
      using assms(2,3) by auto
  qed
  from evictOldestForecast_earliest [OF ne d1 wf1]
  obtain oc od inner item where m1: "map_of (c_forecast c1) oc = Some inner"
    and m2: "map_of inner od = Some item"
    and least: "\<forall>e \<in> set (forecastEntries (c_forecast c1)). ExpiresAt item \<le> ExpiresAt (snd (snd e))"
    and ev: "evictOldestForecast c1 = c1\<lparr>c_forecast := mutateCity oc (AList.delete od) (c_forecast c1)\<rparr>"
    by blast
  have "inner \<noteq> []" using m2 by auto
  then have m1': "map_of (c_forecast c) oc = Some inner"
    using m1 by (auto simp: c1_def fs1_def update_conv' split: if_splits)
  have full: "totalItems c1 \<ge> c_maxSize c1"
    using assms(5) by (simp add: totalItems_occupancy occ) (simp add: c1_def)
  have "SetForecast now c city days forecast =
      c\<lparr>c_forecast :=
          mutateCity city
            (AList.update days \<lparr>Data = forecast, ExpiresAt = now + c_defaultDuration c\<rparr>)
            (mutateCity oc (AList.delete od) fs1)\<rparr>"
    unfolding SetForecast_def c1 Let_def using full ev by (simp add: c1_def)
  with m1' m2 least show ?thesis
    unfolding fs1_def [symmetric] by (auto simp: c1_def ent)
qed

text \<open>
  C2. The combined occupancy of the two stores does exceed \<open>maxSize\<close>.
  \<^verbatim>\<open>SetForecast\<close> counts both stores before it inserts, \<^verbatim>\<open>SetCurrentWeather\<close> counts
  only the current-weather store, and each eviction looks for the earliest expiry in
  one store only. With \<open>maxSize = 1\<close>, a forecast insertion into the empty cache
  followed by a current-weather insertion leaves two entries; so does a
  current-weather insertion followed by a forecast insertion, where
  \<^verbatim>\<open>evictOldestForecast\<close> finds no forecast entry to evict. With \<open>maxSize = 2\<close>, two
  forecast insertions followed by two current-weather insertions leave four entries.
\<close>

theorem C2_occupancy_exceeds:
  "occupancy (SetCurrentWeather 100
      (SetForecast 100 (NewWeatherCache 600 1) ''Prague'' 3 (Some sampleForecast))
      ''Prague'' (Some sampleCurrent)) = 2
   \<and> c_maxSize (SetCurrentWeather 100
      (SetForecast 100 (NewWeatherCache 600 1) ''Prague'' 3 (Some sampleForecast))
      ''Prague'' (Some sampleCurrent)) = 1
   \<and> occupancy (SetForecast 100
      (SetCurrentWeather 100 (NewWeatherCache 600 1) ''Prague'' (Some sampleCurrent))
      ''Prague'' 3 (Some sampleForecast)) = 2
   \<and> occupancy (SetCurrentWeather 100
      (SetCurrentWeather 100
        (SetForecast 100
          (SetForecast 100 (NewWeatherCache 600 2) ''Prague'' 1 (Some sampleForecast))
          ''Prague'' 3 (Some sampleForecast))
        ''Prague'' (Some sampleCurrent))
      ''Tokyo'' (Some sampleCurrent)) = 4"
  by (simp add: NewWeatherCache_def SetCurrentWeather_def SetForecast_def evictOldestCurrent_def
      oldestCurrent_def evictOldestForecast_def oldestForecast_def oldestForecastStep_def
      totalItems_def mutateCity_def occupancy_def forecastEntries_def Let_def)

subsection \<open>The fetch cycle of one city\<close>

lemma aggregateForecast_no_panic:
  "0 \<le> days \<Longrightarrow> aggregateForecast now data days \<noteq> Inl p"
  by (simp add: aggregateForecast_def Let_def split: prod.splits)

lemma aggregateCurrentWeather_sources:
  assumes "wd_Current data \<noteq> []"
  shows "\<exists>agg. aggregateCurrentWeather data = Some agg \<and> acw_Sources agg = map fst (wd_Current data)"
  using assms
  by (simp add: aggregateCurrentWeather_def Let_def fold_addCurrent_sources zeroCurrentTotals_def)

lemma ar_Current_clientResponse:
  "ar_Current (clientResponse c city) =
     (if snd (client_GetCurrentWeather c city) = None then fst (client_GetCurrentWeather c city)
      else None)"
  by (simp add: clientResponse_def Let_def split: prod.splits)

lemma ar_Source_clientResponse: "ar_Source (clientResponse c city) = client_source c"
  by (simp add: clientResponse_def Let_def split: prod.splits)

lemma ar_Current_None_iff:
  "ar_Current (clientResponse c city) = None \<longleftrightarrow> \<not> returnedReading city c"
  by (simp add: ar_Current_clientResponse returnedReading_def)

lemma processResponse_step:
  assumes "processResponse (clientResponse c city) (wd, n) = (wd1, n1)"
  shows "n1 = n + (if returnedReading city c then 1 else 0)
       \<and> fst ` set (wd_Current wd1) =
           fst ` set (wd_Current wd) \<union> (if returnedReading city c then {client_source c} else {})
       \<and> wd_City wd1 = wd_City wd"
proof (cases "ar_Current (clientResponse c city)")
  case None
  then have "\<not> returnedReading city c" by (simp add: ar_Current_None_iff)
  with assms None show ?thesis
    by (auto simp: processResponse_def Let_def split: option.splits)
next
  case (Some current)
  then have r: "returnedReading city c" using ar_Current_None_iff [of c city] by simp
  from assms Some
  have "wd_Current wd1 = AList.update (client_source c) current (wd_Current wd)"
    and "n1 = n + 1" and "wd_City wd1 = wd_City wd"
    by (auto simp: processResponse_def Let_def ar_Source_clientResponse split: option.splits)
  with r show ?thesis
    by (simp add: dom_update)
qed

lemma fold_processResponse:
  "fold processResponse (map (\<lambda>c. clientResponse c city) clients) (wd, n) = (wd', n') \<Longrightarrow>
     n' = n + length (filter (returnedReading city) clients)
   \<and> fst ` set (wd_Current wd') =
       fst ` set (wd_Current wd) \<union> client_source ` set (filter (returnedReading city) clients)
   \<and> wd_City wd' = wd_City wd"
proof (induction clients arbitrary: wd n)
  case Nil
  then show ?case by simp
next
  case (Cons c cs)
  obtain wd1 n1 where step: "processResponse (clientResponse c city) (wd, n) = (wd1, n1)"
    by (cases "processResponse (clientResponse c city) (wd, n)")
  from Cons.prems step
  have "fold processResponse (map (\<lambda>c. clientResponse c city) cs) (wd1, n1) = (wd', n')" by simp
  from Cons.IH [OF this] processResponse_step [OF step] show ?case by auto
qed

lemma SetForecast_currentWeather:
  "c_currentWeather (SetForecast now c city days forecast) = c_currentWeather c"
  by (simp add: SetForecast_def Let_def evictOldestForecast_def split: prod.splits)

lemma cacheForecast_currentWeather:
  "c_currentWeather (cacheForecast now wd city days cache) = c_currentWeather cache"
  by (simp add: cacheForecast_def SetForecast_currentWeather split: sum.splits option.splits)

lemma fold_cacheForecast_currentWeather:
  "c_currentWeather (fold (cacheForecast now wd city) ds cache) = c_currentWeather cache"
  by (induction ds arbitrary: cache) (simp_all add: cacheForecast_currentWeather)

lemma map_of_SetCurrentWeather:
  "map_of (c_currentWeather (SetCurrentWeather now c city weather)) city
     = Some \<lparr>Data = weather, ExpiresAt = now + c_defaultDuration c\<rparr>"
  by (simp add: SetCurrentWeather_def Let_def update_conv' evictOldestCurrent_def split: prod.splits)

lemma aggregateAndCache_stored:
  assumes "map_of (a_weatherData a) city = Some wd" and "wd_Current wd \<noteq> []"
  shows "a_weatherData (aggregateAndCache now a city) = a_weatherData a
       \<and> map_of (c_currentWeather (a_cache (aggregateAndCache now a city))) city
           = Some \<lparr>Data = aggregateCurrentWeather wd,
                   ExpiresAt = now + c_defaultDuration (a_cache a)\<rparr>"
  using assms
  by (simp add: aggregateAndCache_def Let_def cacheForecast_currentWeather
      map_of_SetCurrentWeather)

lemma fetchCityWeather_failure:
  assumes "filter (returnedReading city) clients = []"
  shows "fetchCityWeather now clients a city = (Some (AllAPICallsFailed city), a)"
proof -
  let ?rs = "map (\<lambda>c. clientResponse c city) clients"
  let ?wd0 = "\<lparr>wd_City = city, wd_Current = [], wd_Forecasts = [], wd_Timestamp = now\<rparr>"
  obtain wd n where f: "fold processResponse ?rs (?wd0, 0) = (wd, n)"
    by (cases "fold processResponse ?rs (?wd0, 0)")
  from fold_processResponse [OF f] assms have "n = 0" by simp
  with f show ?thesis by (simp add: fetchCityWeather_def Let_def)
qed

lemma fetchCityWeather_success:
  assumes "filter (returnedReading city) clients \<noteq> []"
  shows "\<exists>a' wd agg.
      fetchCityWeather now clients a city = (None, a')
    \<and> map_of (a_weatherData a') city = Some wd
    \<and> wd_City wd = city
    \<and> set (map fst (wd_Current wd)) = set (map client_source (filter (returnedReading city) clients))
    \<and> map_of (c_currentWeather (a_cache a')) city
        = Some \<lparr>Data = Some agg, ExpiresAt = now + c_defaultDuration (a_cache a)\<rparr>
    \<and> aggregateCurrentWeather wd = Some agg
    \<and> set (acw_Sources agg) = set (map client_source (filter (returnedReading city) clients))"
proof -
  let ?rs = "map (\<lambda>c. clientResponse c city) clients"
  let ?wd0 = "\<lparr>wd_City = city, wd_Current = [], wd_Forecasts = [], wd_Timestamp = now\<rparr>"
  obtain wd n where f: "fold processResponse ?rs (?wd0, 0) = (wd, n)"
    by (cases "fold processResponse ?rs (?wd0, 0)")
  from fold_processResponse [OF f] assms have n: "n \<noteq> 0" by simp
  have keys: "fst ` set (wd_Current wd) = client_source ` set (filter (returnedReading city) clients)"
    using fold_processResponse [OF f] by simp
  have city: "wd_City wd = city"
    using fold_processResponse [OF f] by simp
  from assms have "set (filter (returnedReading city) clients) \<noteq> {}"
    by (simp only: set_empty not_False_eq_True)
  with keys have ne: "wd_Current wd \<noteq> []" by auto
  from aggregateCurrentWeather_sources [OF ne]
  obtain agg where agg: "aggregateCurrentWeather wd = Some agg"
    "acw_Sources agg = map fst (wd_Current wd)" by blast
  define a1 where "a1 = a\<lparr>a_weatherData := AList.update city wd (a_weatherData a)\<rparr>"
  have m: "map_of (a_weatherData a1) city = Some wd"
    by (simp add: a1_def update_conv')
  have res: "fetchCityWeather now clients a city = (None, aggregateAndCache now a1 city)"
    using f n by (simp add: fetchCityWeather_def Let_def a1_def)
  have "a_cache a1 = a_cache a" by (simp add: a1_def)
  with aggregateAndCache_stored [OF m ne, of now] m agg(1)
  have "map_of (a_weatherData (aggregateAndCache now a1 city)) city = Some wd"
    and "map_of (c_currentWeather (a_cache (aggregateAndCache now a1 city))) city
        = Some \<lparr>Data = Some agg, ExpiresAt = now + c_defaultDuration (a_cache a)\<rparr>"
    by simp_all
  with res city keys agg show ?thesis by auto
qed

text \<open>
  C4. A fetch cycle for a city succeeds exactly when at least one client returned a
  current-weather reading. With no reading it returns the error "all API calls failed
  for city" and leaves the aggregator as it was. On success the snapshot is stored
  under the city, the merged record is in the current-weather store of the cache, and
  both the snapshot's keys and the record's contributing sources are exactly the
  names of the clients that returned a reading.
\<close>

theorem C4_fetch_city:
  "(fst (fetchCityWeather now clients a city) = None
      \<longleftrightarrow> filter (returnedReading city) clients \<noteq> [])
   \<and> (filter (returnedReading city) clients = [] \<longrightarrow>
        fetchCityWeather now clients a city = (Some (AllAPICallsFailed city), a))
   \<and> (filter (returnedReading city) clients \<noteq> [] \<longrightarrow>
        (\<exists>a' wd agg.
            fetchCityWeather now clients a city = (None, a')
          \<and> map_of (a_weatherData a') city = Some wd
          \<and> set (map fst (wd_Current wd)) = set (map client_source (filter (returnedReading city) clients))
          \<and> map_of (c_currentWeather (a_cache a')) city
              = Some \<lparr>Data = Some agg, ExpiresAt = now + c_defaultDuration (a_cache a)\<rparr>
          \<and> aggregateCurrentWeather wd = Some agg
          \<and> set (acw_Sources agg) = set (map client_source (filter (returnedReading city) clients))))"
proof (cases "filter (returnedReading city) clients = []")
  case True
  then show ?thesis
    using fetchCityWeather_failure [OF True, of now a] by simp
next
  case False
  from fetchCityWeather_success [OF False, of now a]
  show ?thesis using False by fastforce
qed

theorem C4_fetch_city_witness:
  "filter (returnedReading ''Prague'') [failingClient ''openweathermap'', workingClient, failingClient ''unknown'']
     = [workingClient]
   \<and> fst (fetchCityWeather 100 [failingClient ''openweathermap'', workingClient, failingClient ''unknown'']
        emptyAggregator ''Prague'') = None
   \<and> map_option (map_option acw_Sources \<circ> Data)
        (map_of (c_currentWeather (a_cache (snd (fetchCityWeather 100
            [failingClient ''openweathermap'', workingClient, failingClient ''unknown'']
            emptyAggregator ''Prague'')))) ''Prague'')
       = Some (Some [''open-meteo''])
   \<and> fetchCityWeather 100 [failingClient ''openweathermap'', failingClient ''open-meteo'']
        emptyAggregator ''Prague''
       = (Some (AllAPICallsFailed ''Prague''), emptyAggregator)"
  using C4_fetch_city [of 100 "[failingClient ''openweathermap'', workingClient, failingClient ''unknown'']"
      emptyAggregator "''Prague''"]
    C4_fetch_city [of 100 "[failingClient ''openweathermap'', failingClient ''open-meteo'']"
      emptyAggregator "''Prague''"]
  by (simp add: returnedReading_def failingClient_def workingClient_def emptyAggregator_def
      fetchCityWeather_def clientResponse_def processResponse_def aggregateAndCache_def
      aggregateCurrentWeather_def addCurrent_def zeroCurrentTotals_def cacheForecast_def
      aggregateForecast_def SetCurrentWeather_def NewWeatherCache_def Let_def)

subsection \<open>Validation of the day-count\<close>

text \<open>
  C10. For every day-count below 1 or above 7, \<open>GetAggregatedForecast\<close> returns the
  error at once: the result does not depend on the cache, on the clients or on the
  clock, and the aggregator (cache, snapshots, counters, last fetch time) is returned
  unchanged, so no cache read and no fetch cycle took place.
\<close>

theorem C10_days_validated:
  assumes "days < 1 \<or> days > 7"
  shows "GetAggregatedForecast now clients a city days = ((None, Some DaysOutOfRange), a)"
  using assms by (simp add: GetAggregatedForecast_def)

theorem C10_days_validated_witness:
  "(0::int) < 1 \<and> (8::int) > 7
   \<and> GetAggregatedForecast 100 [workingClient] emptyAggregator ''Prague'' 0
       = ((None, Some DaysOutOfRange), emptyAggregator)
   \<and> GetAggregatedForecast 100 [workingClient] emptyAggregator ''Prague'' 8
       = ((None, Some DaysOutOfRange), emptyAggregator)"
  using C10_days_validated [of 0 100 "[workingClient]" emptyAggregator "''Prague''"]
    C10_days_validated [of 8 100 "[workingClient]" emptyAggregator "''Prague''"]
  by simp

text \<open>
  For contrast, a day-count in range on an empty cache does run a fetch cycle, which
  the counters and the last fetch time record.
\<close>

lemma GetAggregatedForecast_in_range_fetches:
  "GetAggregatedForecast 100 [failingClient ''open-meteo''] emptyAggregator ''Prague'' 3
     = ((None, Some (FailedToFetchForecast ''Prague'' SomeCitiesFailed)),
        emptyAggregator\<lparr>a_lastFetchTime := 100, a_failureCount := 1\<rparr>)"
  by (simp add: GetAggregatedForecast_def GetForecast_def emptyAggregator_def NewWeatherCache_def
      FetchWeatherData_def fetchCity_def fetchCityWeather_def clientResponse_def
      processResponse_def failingClient_def Let_def)

subsection \<open>The backoff delay\<close>

lemma exponent_bounds:
  assumes "x \<noteq> 0"
  shows "2 powi exponent x \<le> \<bar>x\<bar>" and "\<bar>x\<bar> < 2 powi (exponent x + 1)"
proof -
  have "2 powi exponent x \<le> \<bar>x\<bar> \<and> \<bar>x\<bar> < 2 powi (exponent x + 1)"
  proof (cases "1 \<le> \<bar>x\<bar>")
    case True
    define n where "n = \<lfloor>\<bar>x\<bar>\<rfloor>"
    define b where "b = bitlen n"
    have n: "0 < n" using True by (simp add: n_def)
    have b: "1 \<le> b" using n by (simp add: b_def bitlen_alt_def)
    have e: "exponent x = b - 1" using True by (simp add: exponent_def n_def b_def)
    from bitlen_bounds [OF n] have lo: "2 ^ nat (b - 1) \<le> n" and hi: "n < 2 ^ nat b"
      by (simp_all add: b_def)
    have "real_of_int (2 ^ nat (b - 1)) \<le> real_of_int n" using lo by (simp only: of_int_le_iff)
    also have "\<dots> \<le> \<bar>x\<bar>" by (simp add: n_def)
    finally have 1: "2 powi (b - 1) \<le> \<bar>x\<bar>" using b by (simp add: power_int_def)
    have "\<bar>x\<bar> < real_of_int n + 1" by (simp add: n_def)
    also have "\<dots> = real_of_int (n + 1)" by simp
    also have "\<dots> \<le> real_of_int (2 ^ nat b)"
      using hi by (simp only: of_int_le_iff zless_imp_add1_zle)
    finally have 2: "\<bar>x\<bar> < 2 powi b" using b by (simp add: power_int_def)
    from 1 2 e show ?thesis by simp
  next
    case False
    define y where "y = 1 / \<bar>x\<bar>"
    define n where "n = \<lceil>y\<rceil> - 1"
    define b where "b = bitlen n"
    have x: "0 < \<bar>x\<bar>" "\<bar>x\<bar> < 1" using assms False by simp_all
    then have y: "1 < y" by (simp add: y_def)
    then have n: "0 < n" unfolding n_def by linarith
    have ny: "real_of_int n < y" "y \<le> real_of_int n + 1" unfolding n_def by linarith+
    have b: "1 \<le> b" using n by (simp add: b_def bitlen_alt_def)
    have e: "exponent x = - b" using False by (simp add: exponent_def n_def b_def y_def)
    from bitlen_bounds [OF n] have lo: "2 ^ nat (b - 1) \<le> n" and hi: "n < 2 ^ nat b"
      by (simp_all add: b_def)
    have "y \<le> real_of_int (n + 1)" using ny by simp
    also have "\<dots> \<le> real_of_int (2 ^ nat b)"
      using hi by (simp only: of_int_le_iff zless_imp_add1_zle)
    finally have "y \<le> 2 ^ nat b" by simp
    then have "1 / 2 ^ nat b \<le> \<bar>x\<bar>" using x by (simp add: y_def field_simps)
    then have 1: "2 powi (- b) \<le> \<bar>x\<bar>" using b by (simp add: power_int_def field_simps)
    have "real_of_int (2 ^ nat (b - 1)) \<le> real_of_int n" using lo by (simp only: of_int_le_iff)
    also have "\<dots> < y" using ny by simp
    finally have "2 ^ nat (b - 1) < y" by simp
    then have "\<bar>x\<bar> < 1 / 2 ^ nat (b - 1)" using x by (simp add: y_def field_simps)
    moreover have "(2::real) powi (- b + 1) = 1 / 2 ^ nat (b - 1)"
      using b by (cases "b = 1") (simp_all add: power_int_def field_simps)
    ultimately have 2: "\<bar>x\<bar> < 2 powi (- b + 1)" by simp
    from 1 2 e show ?thesis by simp
  qed
  then show "2 powi exponent x \<le> \<bar>x\<bar>" and "\<bar>x\<bar> < 2 powi (exponent x + 1)" by simp_all
qed

lemma exponent_less:
  assumes "x \<noteq> 0" and "\<bar>x\<bar> < 2 powi k"
  shows "exponent x < k"
proof (rule ccontr)
  assume "\<not> exponent x < k"
  then have "(2::real) powi k \<le> 2 powi exponent x" by (intro power_int_increasing) simp_all
  with exponent_bounds(1) [OF assms(1)] assms(2) show False by simp
qed

lemma roundEven_of_int: "roundEven (of_int n) = n"
  by (simp add: roundEven_def)

text \<open>
  A whole multiple of a power of two with a mantissa below \<open>2 ^ 53\<close> is a \<^verbatim>\<open>float64\<close>:
  rounding leaves it as it is. So do the whole numbers below \<open>2 ^ 53\<close>.
\<close>

lemma round64_dyadic:
  assumes "\<bar>m\<bar> < 2 ^ 53" and "- 1074 \<le> q" and "q \<le> 970"
  shows "round64 (of_int m * 2 powi q) = Finite (of_int m * 2 powi q)"
proof (cases "m = 0")
  case True
  then show ?thesis by (simp add: round64_def)
next
  case False
  let ?x = "real_of_int m * 2 powi q"
  have nz: "?x \<noteq> 0" using False by simp
  have "\<bar>real_of_int m\<bar> < 2 ^ 53"
    using assms(1) by (metis of_int_abs of_int_less_numeral_power_cancel_iff)
  then have "\<bar>?x\<bar> < 2 ^ 53 * 2 powi q" by (simp add: abs_mult)
  also have "\<dots> = 2 powi (53 + q)" by (simp add: power_int_add)
  finally have lt: "\<bar>?x\<bar> < 2 powi (53 + q)" .
  from exponent_less [OF nz lt] have e: "exponent ?x - 52 \<le> q" by simp
  define q' where "q' = max (exponent ?x - 52) (- 1074)"
  have q': "q' \<le> q" using e assms(2) by (simp add: q'_def)
  have "?x / 2 powi q' = real_of_int m * 2 powi (q - q')" by (simp add: power_int_diff)
  also have "\<dots> = real_of_int (m * 2 ^ nat (q - q'))" using q' by (simp add: power_int_def)
  finally have "roundEven (?x / 2 powi q') = m * 2 ^ nat (q - q')"
    by (simp only: roundEven_of_int)
  then have "real_of_int (roundEven (?x / 2 powi q')) * 2 powi q'
      = real_of_int m * 2 powi (q - q') * 2 powi q'"
    using q' by (simp add: power_int_def)
  also have "\<dots> = ?x" by (simp add: power_int_diff)
  finally have y: "real_of_int (roundEven (?x / 2 powi q')) * 2 powi q' = ?x" .
  have "(2::real) powi (53 + q) \<le> 2 powi 1023"
    using assms(3) by (intro power_int_increasing) simp_all
  with lt have "\<bar>?x\<bar> < 2 powi 1023" by simp
  also have "\<dots> < (2::real) ^ 1024" by (simp add: power_int_def)
  finally have small: "\<not> 2 ^ 1024 \<le> \<bar>?x\<bar>" by simp
  show ?thesis
    using nz small y unfolding round64_def Let_def q'_def [symmetric] by simp
qed

lemma round64_int: "\<bar>i\<bar> < 2 ^ 53 \<Longrightarrow> round64 (of_int i) = Finite (of_int i)"
  using round64_dyadic [of i 0] by simp

lemma fromInt64_small: "\<bar>i\<bar> < 2 ^ 53 \<Longrightarrow> fromInt64 i = Finite (of_int i)"
  by (simp add: fromInt64_def round64_int)



lemma towardZero_int64:
  assumes "\<bar>x\<bar> < 2 ^ 63"
  shows "- (2 ^ 63) \<le> towardZero x" and "towardZero x < 2 ^ 63"
proof -
  have "real_of_int (- (2 ^ 63)) < x" and "x < real_of_int (2 ^ 63)" using assms by simp_all
  then have "- (2 ^ 63) \<le> \<lfloor>x\<rfloor>" "\<lceil>x\<rceil> \<le> 2 ^ 63" "\<lfloor>x\<rfloor> < 2 ^ 63" "- (2 ^ 63) < \<lceil>x\<rceil>"
    by (simp_all only: le_floor_iff ceiling_le_iff floor_less_iff less_ceiling_iff)
  moreover have "\<lceil>x\<rceil> \<le> 0" if "\<not> 0 \<le> x" using that by (simp add: ceiling_le_iff)
  ultimately show "- (2 ^ 63) \<le> towardZero x" and "towardZero x < 2 ^ 63"
    by (auto simp: towardZero_def)
qed

lemma toDuration_Finite: "\<bar>x\<bar> < 2 ^ 63 \<Longrightarrow> toDuration env (Finite x) = towardZero x"
  using towardZero_int64 [of x] by (simp add: toDuration_def)


text \<open>The delays of the examples.\<close>

lemma fromInt64_examples:
  "fromInt64 0 = Finite 0"
  "fromInt64 1 = Finite 1"
  "fromInt64 2 = Finite 2"
  "fromInt64 1000000000 = Finite 1000000000"
  using fromInt64_small [of 0] fromInt64_small [of 1] fromInt64_small [of 2]
    fromInt64_small [of 1000000000]
  by simp_all

lemma roundedPow_examples:
  "roundedPow x (Finite 0) = Finite 1"
  "roundedPow x (Finite 1) = x"
  "roundedPow (Finite 2) (Finite 2) = Finite 4"
  using round64_int [of 4] by (simp_all add: roundedPow_def)

lemma round64_examples:
  "round64 1 = Finite 1"
  "round64 (3 / 2) = Finite (3 / 2)"
  "round64 1000000000 = Finite 1000000000"
  "round64 2000000000 = Finite 2000000000"
  "round64 4000000000 = Finite 4000000000"
  using round64_int [of 1] round64_dyadic [of 3 "- 1"] round64_int [of 1000000000]
    round64_int [of 2000000000] round64_int [of 4000000000]
  by simp_all

lemma backoffDelay_defaultClient:
  assumes "mathPow env = roundedPow"
  shows "backoffDelay defaultClient env 1 = 1000000000"
    and "backoffDelay defaultClient env 2 = 2000000000"
    and "backoffDelay defaultClient env 3 = 4000000000"
  using assms
  by (simp_all add: backoffDelay_def defaultClient_def fromInt64_examples roundedPow_examples
      round64_examples mul64_def toDuration_Finite towardZero_def)


subsection \<open>The retry loop\<close>



lemma emit_pair: "emit es (x, t) = (x, es @ t)"
  by (simp add: emit_def)



text \<open>An attempt that is made: the wait, if any, is over and the request is built.\<close>

lemma retryLoop_attempt:
  assumes "attempt \<le> maxRetries c" and "0 < attempt \<longrightarrow> ctxDone env attempt = None"
    and "newRequest env = None"
  shows "retryLoop c env attempt lastErr =
      emit (attemptEvents c env attempt)
        (case clientDo env attempt of
           DoError err \<Rightarrow> retryLoop c env (attempt + 1) (Some err)
         | Response status body \<Rightarrow>
             if status \<ge> 200 \<and> status < 300 then
               (case body of
                  Inl err \<Rightarrow> retryLoop c env (attempt + 1) (Some err)
                | Inr bytes \<Rightarrow> (Inr bytes, []))
             else if status \<ge> 400 \<and> status < 500 \<and> status \<noteq> 429
             then (Inl (MaxRetriesExceeded (Some (HTTPStatusError status))), [])
             else retryLoop c env (attempt + 1) (Some (HTTPStatusError status)))"
proof -
  have sel: "(if 0 < attempt then ctxDone env attempt else None) = None"
    using assms(2) by simp
  show ?thesis
    using assms(1,3) sel
    by (simp add: retryLoop.simps [of c env attempt lastErr] emit_def attemptEvents_def)
qed

lemma retryLoop_retry:
  assumes "attempt \<le> maxRetries c" and "0 < attempt \<longrightarrow> ctxDone env attempt = None"
    and "newRequest env = None" and "retryable (clientDo env attempt)"
  shows "retryLoop c env attempt lastErr =
      emit (attemptEvents c env attempt)
        (retryLoop c env (attempt + 1) (Some (failureOf (clientDo env attempt))))"
proof (cases "clientDo env attempt")
  case (DoError err)
  then show ?thesis by (simp add: retryLoop_attempt [OF assms(1,2,3)])
next
  case (Response status body)
  with assms(4) show ?thesis
    by (cases body) (auto simp: retryLoop_attempt [OF assms(1,2,3)])
qed

lemma retryLoop_success:
  assumes "attempt \<le> maxRetries c" and "0 < attempt \<longrightarrow> ctxDone env attempt = None"
    and "newRequest env = None"
    and "clientDo env attempt = Response status (Inr bytes)" and "200 \<le> status" and "status < 300"
  shows "retryLoop c env attempt lastErr = (Inr bytes, attemptEvents c env attempt)"
  using assms(4,5,6) by (simp add: retryLoop_attempt [OF assms(1,2,3)] emit_pair)

lemma retryLoop_client_error:
  assumes "attempt \<le> maxRetries c" and "0 < attempt \<longrightarrow> ctxDone env attempt = None"
    and "newRequest env = None"
    and "clientDo env attempt = Response status body"
    and "400 \<le> status" and "status < 500" and "status \<noteq> 429"
  shows "retryLoop c env attempt lastErr =
      (Inl (MaxRetriesExceeded (Some (HTTPStatusError status))), attemptEvents c env attempt)"
  using assms(4,5,6,7) by (simp add: retryLoop_attempt [OF assms(1,2,3)] emit_pair)

lemma retryLoop_exhausted:
  "\<not> attempt \<le> maxRetries c \<Longrightarrow>
     retryLoop c env attempt lastErr = (Inl (MaxRetriesExceeded lastErr), [])"
  by (simp add: retryLoop.simps [of c env attempt lastErr])









subsection \<open>Outcomes by status class\<close>

lemma emit_emit: "emit es (emit es' r) = emit (es @ es') r"
  by (simp add: emit_def)

lemma emit_Nil: "emit [] r = r"
  by (simp add: emit_def)

lemma eventsThrough_Suc:
  "eventsThrough c env (Suc n) = eventsThrough c env n @ attemptEvents c env (int n + 1)"
  by (simp add: eventsThrough_def add.commute)

text \<open>As long as the outcomes are retryable and the budget lasts, the loop goes from attempt to attempt.\<close>

lemma retryLoop_through_retries:
  assumes "newRequest env = None" and "\<forall>k. ctxDone env k = None"
    and "\<forall>i < n. retryable (clientDo env (int i))" and "int n \<le> maxRetries c + 1"
  shows "retryLoop c env 0 None =
      emit (concat (map (\<lambda>i. attemptEvents c env (int i)) [0..<n]))
        (retryLoop c env (int n)
           (if n = 0 then None else Some (failureOf (clientDo env (int n - 1)))))"
  using assms(3,4)
proof (induction n)
  case 0
  show ?case by (simp add: emit_Nil)
next
  case (Suc n)
  let ?l = "if n = 0 then None else Some (failureOf (clientDo env (int n - 1)))"
  have le: "int n \<le> maxRetries c" using Suc.prems(2) by simp
  have nc: "0 < int n \<longrightarrow> ctxDone env (int n) = None" using assms(2) by simp
  have r: "retryable (clientDo env (int n))" using Suc.prems(1) by simp
  have "retryLoop c env 0 None =
      emit (concat (map (\<lambda>i. attemptEvents c env (int i)) [0..<n])) (retryLoop c env (int n) ?l)"
    using Suc.IH Suc.prems by simp
  also have "retryLoop c env (int n) ?l =
      emit (attemptEvents c env (int n))
        (retryLoop c env (int n + 1) (Some (failureOf (clientDo env (int n)))))"
    by (rule retryLoop_retry [OF le nc assms(1) r])
  finally show ?case
    by (simp add: emit_emit add.commute)
qed

lemma doGetWithRetry_decisive:
  assumes "newRequest env = None" and "\<forall>k. ctxDone env k = None"
    and "\<forall>i < n. retryable (clientDo env (int i))" and "int n \<le> maxRetries c"
  shows "doGetWithRetry c env =
      emit (eventsThrough c env n)
        (case clientDo env (int n) of
           DoError err \<Rightarrow> retryLoop c env (int n + 1) (Some err)
         | Response status body \<Rightarrow>
             if status \<ge> 200 \<and> status < 300 then
               (case body of
                  Inl err \<Rightarrow> retryLoop c env (int n + 1) (Some err)
                | Inr bytes \<Rightarrow> (Inr bytes, []))
             else if status \<ge> 400 \<and> status < 500 \<and> status \<noteq> 429
             then (Inl (MaxRetriesExceeded (Some (HTTPStatusError status))), [])
             else retryLoop c env (int n + 1) (Some (HTTPStatusError status)))"
proof -
  have le: "int n \<le> maxRetries c + 1" using assms(4) by simp
  have nc: "0 < int n \<longrightarrow> ctxDone env (int n) = None" using assms(2) by simp
  show ?thesis
    unfolding doGetWithRetry_def retryLoop_through_retries [OF assms(1,2,3) le]
      retryLoop_attempt [OF assms(4) nc assms(1)]
    by (simp add: emit_emit eventsThrough_def)
qed

text \<open>
  C6. Suppose the request can be built, the context is not done, and the attempts
  before attempt \<open>n\<close> (within the budget) had retryable outcomes: a transport error,
  a 429 or a 5xx. Then
  \<^item> a 2xx response at attempt \<open>n\<close> whose body is read returns the body;
  \<^item> any 4xx response other than 429 at attempt \<open>n\<close> fails at once with that status as
    the error: the effects are those of the attempts \<open>0\<close> to \<open>n\<close> and nothing more, no
    further wait and no further request;
  \<^item> a retryable outcome at attempt \<open>n\<close> with budget left is followed by the wait and
    the request of attempt \<open>n + 1\<close>;
  \<^item> a retryable outcome at the last attempt \<open>n = maxRetries\<close> fails with the failure
    of that last attempt as the reported error.
\<close>

theorem C6_status_classes:
  assumes "newRequest env = None" and "\<forall>k. ctxDone env k = None"
    and "\<forall>i < n. retryable (clientDo env (int i))" and "int n \<le> maxRetries c"
  shows "(\<forall>status bytes. clientDo env (int n) = Response status (Inr bytes)
            \<and> 200 \<le> status \<and> status < 300 \<longrightarrow>
            doGetWithRetry c env = (Inr bytes, eventsThrough c env n))
       \<and> (\<forall>status body. clientDo env (int n) = Response status body
            \<and> 400 \<le> status \<and> status < 500 \<and> status \<noteq> 429 \<longrightarrow>
            doGetWithRetry c env =
              (Inl (MaxRetriesExceeded (Some (HTTPStatusError status))), eventsThrough c env n))
       \<and> (retryable (clientDo env (int n)) \<and> int n < maxRetries c \<longrightarrow>
            (\<exists>r. doGetWithRetry c env = emit (eventsThrough c env (Suc n)) r))
       \<and> (retryable (clientDo env (int n)) \<and> int n = maxRetries c \<longrightarrow>
            doGetWithRetry c env =
              (Inl (MaxRetriesExceeded (Some (failureOf (clientDo env (int n))))),
               eventsThrough c env n))"
proof -
  note dec = doGetWithRetry_decisive [OF assms]
  have success: "doGetWithRetry c env = (Inr bytes, eventsThrough c env n)"
    if "clientDo env (int n) = Response status (Inr bytes)" "200 \<le> status" "status < 300"
    for status bytes
    using that by (simp add: dec emit_pair)
  have client: "doGetWithRetry c env =
      (Inl (MaxRetriesExceeded (Some (HTTPStatusError status))), eventsThrough c env n)"
    if "clientDo env (int n) = Response status body" "400 \<le> status" "status < 500" "status \<noteq> 429"
    for status body
    using that by (simp add: dec emit_pair)
  have all: "\<forall>i < Suc n. retryable (clientDo env (int i))" if "retryable (clientDo env (int n))"
    using that assms(3) by (auto simp: less_Suc_eq)
  have retried: "\<exists>r. doGetWithRetry c env = emit (eventsThrough c env (Suc n)) r"
    if "retryable (clientDo env (int n))" "int n < maxRetries c"
  proof -
    have le: "int (Suc n) \<le> maxRetries c" using that(2) by simp
    from doGetWithRetry_decisive [OF assms(1,2) all [OF that(1)] le] show ?thesis by blast
  qed
  have exhausted: "doGetWithRetry c env =
      (Inl (MaxRetriesExceeded (Some (failureOf (clientDo env (int n))))), eventsThrough c env n)"
    if "retryable (clientDo env (int n))" "int n = maxRetries c"
  proof -
    have le: "int (Suc n) \<le> maxRetries c + 1" using that(2) by simp
    have over: "\<not> int (Suc n) \<le> maxRetries c" using that(2) by simp
    have ex: "retryLoop c env (int (Suc n)) l = (Inl (MaxRetriesExceeded l), [])" for l
      by (rule retryLoop_exhausted [OF over])
    show ?thesis
      unfolding doGetWithRetry_def retryLoop_through_retries [OF assms(1,2) all [OF that(1)] le] ex
      by (simp add: emit_pair eventsThrough_def)
  qed
  from success client retried exhausted show ?thesis by blast
qed

theorem C6_status_classes_witness:
  "newRequest recoveringEnv = None
   \<and> retryable (clientDo recoveringEnv 0) \<and> retryable (clientDo recoveringEnv 1)
   \<and> doGetWithRetry defaultClient recoveringEnv
       = (Inr ''{}'', [Request 0, Backoff 1 1000000000, Request 1, Backoff 2 2000000000, Request 2])
   \<and> doGetWithRetry defaultClient notFoundEnv
       = (Inl (MaxRetriesExceeded (Some (HTTPStatusError 404))), [Request 0])
   \<and> doGetWithRetry defaultClient unavailableEnv
       = (Inl (MaxRetriesExceeded (Some (HTTPStatusError 503))),
          [Request 0, Backoff 1 1000000000, Request 1, Backoff 2 2000000000, Request 2,
           Backoff 3 4000000000, Request 3])"
proof -
  have pow: "mathPow recoveringEnv = roundedPow" "mathPow unavailableEnv = roundedPow"
    by (simp_all add: recoveringEnv_def unavailableEnv_def)
  have ev: "eventsThrough defaultClient notFoundEnv 0 = [Request 0]"
    "eventsThrough defaultClient recoveringEnv 2
       = [Request 0, Backoff 1 1000000000, Request 1, Backoff 2 2000000000, Request 2]"
    "eventsThrough defaultClient unavailableEnv 3
       = [Request 0, Backoff 1 1000000000, Request 1, Backoff 2 2000000000, Request 2,
          Backoff 3 4000000000, Request 3]"
    by (simp_all add: eventsThrough_def attemptEvents_def upt_rec
        backoffDelay_defaultClient [OF pow(1)] backoffDelay_defaultClient [OF pow(2)])
  have r1: "newRequest recoveringEnv = None" "\<forall>k. ctxDone recoveringEnv k = None"
    "retryable (clientDo recoveringEnv 0)" "retryable (clientDo recoveringEnv 1)"
    "\<forall>i < 2. retryable (clientDo recoveringEnv (int i))"
    "clientDo recoveringEnv (int 2) = Response 200 (Inr ''{}'')"
    by (simp_all add: recoveringEnv_def less_Suc_eq numeral_2_eq_2)
  have b1: "int 2 \<le> maxRetries defaultClient" "int 0 \<le> maxRetries defaultClient"
    "int 3 = maxRetries defaultClient"
    by (simp_all add: defaultClient_def)
  from C6_status_classes [OF r1(1,2,5) b1(1)] r1(6)
  have one: "doGetWithRetry defaultClient recoveringEnv = (Inr ''{}'', eventsThrough defaultClient recoveringEnv 2)"
    by simp
  have r2: "newRequest notFoundEnv = None" "\<forall>k. ctxDone notFoundEnv k = None"
    "\<forall>i < 0. retryable (clientDo notFoundEnv (int i))"
    "clientDo notFoundEnv (int 0) = Response 404 (Inr ''not found'')"
    by (simp_all add: notFoundEnv_def)
  from C6_status_classes [OF r2(1,2,3) b1(2)] r2(4)
  have two: "doGetWithRetry defaultClient notFoundEnv
      = (Inl (MaxRetriesExceeded (Some (HTTPStatusError 404))), eventsThrough defaultClient notFoundEnv 0)"
    by simp
  have r3: "newRequest unavailableEnv = None" "\<forall>k. ctxDone unavailableEnv k = None"
    "\<forall>i < 3. retryable (clientDo unavailableEnv (int i))"
    "retryable (clientDo unavailableEnv (int 3))"
    "failureOf (clientDo unavailableEnv (int 3)) = HTTPStatusError 503"
    by (simp_all add: unavailableEnv_def)
  have b3: "int 3 \<le> maxRetries defaultClient" using b1(3) by simp
  from C6_status_classes [OF r3(1,2,3) b3] r3(4,5) b1(3)
  have three: "doGetWithRetry defaultClient unavailableEnv
      = (Inl (MaxRetriesExceeded (Some (HTTPStatusError 503))), eventsThrough defaultClient unavailableEnv 3)"
    by simp
  from one two three r1(1,3,4) show ?thesis
    by (simp only: ev simp_thms)
qed

end
